theory Spec2Isabelle
  imports Main "HOL-Library.Sublist"
begin

section \<open>Strings, errors and the operating system\<close>

text \<open>
  Go strings are byte sequences; they are modelled as \<open>string\<close> (a list of 8-bit
  characters), so \<open>length\<close> is Go's \<open>len\<close> (a count of bytes).

  A Go \<open>error\<close> is modelled by the way it was built: a value handed back by the operating
  system or by a library call, a constant message, \<open>fmt.Errorf("<prefix>: %v", err)\<close>
  around another error, or one of the errors of the libraries that the model spells out
  (\<open>json.SyntaxError\<close>, \<open>json.UnmarshalTypeError\<close> with the field it is about, and
  \<open>strconv.NumError\<close> with the text and the reason). The value \<open>nil\<close> is \<open>None\<close> of
  \<open>error option\<close>, or the \<open>Inr\<close> side of a result.
\<close>

datatype error =
    SysError string
  | ErrorNew string
  | Errorf string error
  | SyntaxError
  | UnmarshalTypeError string
  | NumError string string

type_synonym path = string

record DirEntry =
  Name :: string
  IsDir :: bool

text \<open>
  A \<open>time.Time\<close> is an instant, in seconds since the Unix epoch and nanoseconds within
  the second, with the offset of its zone at that instant (seconds east of UTC).
\<close>

record Time =
  unixSec :: int
  nsec :: nat
  zoneOffset :: int

text \<open>
  The calls the program makes into the operating system are the fields of a record: each
  field gives the outcome of the call on its arguments (\<open>Inl\<close>, or \<open>Some\<close> of an
  \<open>error option\<close>, is the error of a failed call). The outcomes do not depend on the
  calls made before: the model does not follow how the calls change the file system.
  \<open>ReadDir\<close>, \<open>ReadFile\<close>, \<open>MkdirAll\<close>, \<open>Rename\<close>, \<open>Lstat\<close>, \<open>Remove\<close> and
  \<open>Symlink\<close> are the functions of package \<open>os\<close>. Three library functions are taken
  as given in the same way: \<open>Rel\<close> is \<open>filepath.Rel\<close>, \<open>time_Parse\<close> is \<open>time.Parse\<close>
  (layout, then text), and \<open>localOffset\<close> is the offset of the local zone at an instant.
\<close>

record world =
  ReadDir :: "path \<Rightarrow> error + DirEntry list"
  ReadFile :: "path \<Rightarrow> error + string"
  MkdirAll :: "path \<Rightarrow> error option"
  Rename :: "path \<Rightarrow> path \<Rightarrow> error option"
  Lstat :: "path \<Rightarrow> error option"
  Remove :: "path \<Rightarrow> error option"
  Symlink :: "path \<Rightarrow> path \<Rightarrow> error option"
  Rel :: "path \<Rightarrow> path \<Rightarrow> error + path"
  time_Parse :: "string \<Rightarrow> string \<Rightarrow> error + Time"
  localOffset :: "int \<Rightarrow> int"

text \<open>\<open>strings.HasSuffix\<close>, \<open>strings.TrimSuffix\<close> and \<open>strings.Contains\<close>.\<close>

definition strings_HasSuffix :: "string \<Rightarrow> string \<Rightarrow> bool" where
  "strings_HasSuffix s suf = suffix suf s"

definition strings_TrimSuffix :: "string \<Rightarrow> string \<Rightarrow> string" where
  "strings_TrimSuffix s suf =
     (if strings_HasSuffix s suf then take (length s - length suf) s else s)"

fun strings_Contains :: "string \<Rightarrow> string \<Rightarrow> bool" where
  "strings_Contains [] substr = (substr = [])"
| "strings_Contains (c # s) substr = (prefix substr (c # s) \<or> strings_Contains s substr)"

section \<open>Content validation of a companion candidate\<close>

text \<open>
  \<open>isGooglePhotosSidecar\<close> (main.go, 529-540): the file is read; a failed read rejects
  the candidate; otherwise three substring tests and the length test decide.
\<close>

definition isGooglePhotosSidecar :: "world \<Rightarrow> path \<Rightarrow> bool" where
  "isGooglePhotosSidecar w filePath =
     (case ReadFile w filePath of
        Inl err \<Rightarrow> False
      | Inr content \<Rightarrow>
          strings_Contains content ''photoTakenTime'' \<and>
          strings_Contains content ''timestamp'' \<and>
          (strings_Contains content ''title'' \<or> length content < 1000))"

section \<open>Worker process handles\<close>

text \<open>\<open>fmt.Sprintf("%d", i)\<close>: the decimal digits of an integer, with a minus sign.\<close>

fun decimal :: "nat \<Rightarrow> string" where
  "decimal n = (if n < 10 then [''0123456789'' ! n] else decimal (n div 10) @ [''0123456789'' ! (n mod 10)])"

declare decimal.simps [simp del]

definition fmt_d :: "int \<Rightarrow> string" where
  "fmt_d i = (if i < 0 then ''-'' @ decimal (nat (- i)) else decimal (nat i))"

text \<open>
  \<open>ExifToolProcess\<close> owns one subprocess. The model keeps what the program can observe
  of it: the bytes written to its standard input (\<open>stdin\<close>) and the error, if any, that
  a write returns (\<open>stdinFault\<close>); the lines the scanner on its standard output has yet
  to deliver (\<open>pending\<close>: the subprocess answers the commands in their order, each answer
  ending in a \<open>{ready}\<close> line, and the scanner is never reset, so the lines that one call
  leaves unread are the first that the next call on the handle reads) and the error the
  scanner reports when they are used up (\<open>scanFault\<close>, \<open>None\<close> for a clean end of
  input; while \<open>Scan\<close> still delivers lines \<open>Err\<close> is nil); how the subprocess ends
  when asked to (\<open>exit\<close>); and how many times \<open>Close\<close> ran on the handle. A handle comes from \<open>startExifToolProcess\<close> only,
  which sets \<open>cmd\<close>, \<open>stdin\<close>, \<open>stdout\<close> and \<open>scanner\<close>, so the nil tests of
  \<open>Close\<close> succeed. The mutex is left out: one call runs at a time on a handle.
\<close>

datatype exit_behaviour =
    Exits "error option"
  | Hangs "error option"

record ExifToolProcess =
  stdin :: string
  stdinFault :: "error option"
  pending :: "string list"
  scanFault :: "error option"
  exit :: exit_behaviour
  closeCalls :: nat

record ExifToolManager =
  processes :: "ExifToolProcess list"

text \<open>
  \<open>stdin.Write\<close>: the bytes reach the pipe unless the write fails.
\<close>

definition stdin_Write :: "ExifToolProcess \<Rightarrow> string \<Rightarrow> error option \<times> ExifToolProcess" where
  "stdin_Write etp bytes =
     (case stdinFault etp of
        None \<Rightarrow> (None, etp\<lparr>stdin := stdin etp @ bytes\<rparr>)
      | Some err \<Rightarrow> (Some err, etp))"

text \<open>
  \<open>ExifToolProcess.Close\<close> (main.go, 840-871): the shutdown directive is written (the
  outcome of the write is ignored), the pipes are closed, and the call waits for the
  subprocess: \<open>Exits r\<close> is a subprocess that ends within the five seconds, \<open>r\<close> being
  what \<open>cmd.Wait\<close> returns; \<open>Hangs k\<close> is one that does not, \<open>k\<close> being what
  \<open>Process.Kill\<close> returns.
\<close>

definition ExifToolProcess_Close :: "ExifToolProcess \<Rightarrow> error option \<times> ExifToolProcess" where
  "ExifToolProcess_Close etp =
     (let etp1 = snd (stdin_Write etp (''-stay_open'' @ [CHR 0x0A] @ ''False'' @ [CHR 0x0A]));
          etp2 = etp1\<lparr>closeCalls := closeCalls etp1 + 1\<rparr>
      in case exit etp of
           Exits r \<Rightarrow> (r, etp2)
         | Hangs k \<Rightarrow> (k, etp2))"

text \<open>
  \<open>ExifToolManager.Close\<close> (main.go, 828-837). The loop runs over the handles with their
  index; a failed close is logged (the log entry is the index and the error) and stored
  in \<open>lastErr\<close>. The result is \<open>lastErr\<close>, the handles after the calls, and the log.
\<close>

fun closeLoop ::
  "nat \<Rightarrow> ExifToolProcess list \<Rightarrow> error option \<Rightarrow> (nat \<times> error) list \<Rightarrow>
     error option \<times> ExifToolProcess list \<times> (nat \<times> error) list" where
  "closeLoop i [] lastErr lg = (lastErr, [], lg)"
| "closeLoop i (process # rest) lastErr lg =
     (case ExifToolProcess_Close process of
        (None, process') \<Rightarrow>
          (case closeLoop (i + 1) rest lastErr lg of
             (r, rest', lg') \<Rightarrow> (r, process' # rest', lg'))
      | (Some err, process') \<Rightarrow>
          (case closeLoop (i + 1) rest (Some err) (lg @ [(i, err)]) of
             (r, rest', lg') \<Rightarrow> (r, process' # rest', lg')))"

definition ExifToolManager_Close ::
  "ExifToolManager \<Rightarrow> error option \<times> ExifToolManager \<times> (nat \<times> error) list" where
  "ExifToolManager_Close etm =
     (case closeLoop 0 (processes etm) None [] of
        (lastErr, ps, lg) \<Rightarrow> (lastErr, etm\<lparr>processes := ps\<rparr>, lg))"

text \<open>
  \<open>startExifToolProcess\<close> (main.go, 709-738) makes the two pipes and starts the command;
  each of the three calls can fail. \<open>spawn\<close> is what the operating system does on one
  call of \<open>startExifToolProcess\<close>: the first call that fails with its error, or the
  subprocess that was started.
\<close>

datatype spawn =
    StdinPipeFails error
  | StdoutPipeFails error
  | StartFails error
  | Started ExifToolProcess

fun startExifToolProcess :: "spawn \<Rightarrow> error + ExifToolProcess" where
  "startExifToolProcess (StdinPipeFails err) = Inl (Errorf ''failed to create stdin pipe: '' err)"
| "startExifToolProcess (StdoutPipeFails err) = Inl (Errorf ''failed to create stdout pipe: '' err)"
| "startExifToolProcess (StartFails err) = Inl (Errorf ''failed to start exiftool: '' err)"
| "startExifToolProcess (Started etp) = Inr etp"

text \<open>
  \<open>NewExifToolManager\<close> (main.go, 684-706). \<open>lookPath\<close> is the outcome of
  \<open>exec.LookPath("exiftool")\<close> and \<open>spawns i\<close> the outcome of the call of
  \<open>startExifToolProcess\<close> in iteration \<open>i\<close>. \<open>make\<close> panics on a negative length.
  The loop keeps the handles made so far; when a start fails, \<open>Close\<close> runs on each of
  them (its result is dropped) and the error is returned. Besides the Go result the
  model returns the handles that the constructor closed, as \<open>Close\<close> left them.
\<close>

datatype 'a go = Panics string | Returns 'a

fun startLoop ::
  "(nat \<Rightarrow> spawn) \<Rightarrow> nat \<Rightarrow> nat \<Rightarrow> ExifToolProcess list \<Rightarrow>
     (error + ExifToolManager) \<times> ExifToolProcess list" where
  "startLoop spawns i 0 created = (Inr \<lparr>processes = created\<rparr>, [])"
| "startLoop spawns i (Suc n) created =
     (case startExifToolProcess (spawns i) of
        Inl err \<Rightarrow>
          (Inl (Errorf (''failed to start ExifTool process '' @ fmt_d (int i) @ '': '') err),
           map (\<lambda>p. snd (ExifToolProcess_Close p)) created)
      | Inr process \<Rightarrow> startLoop spawns (i + 1) n (created @ [process]))"

definition NewExifToolManager ::
  "error + path \<Rightarrow> (nat \<Rightarrow> spawn) \<Rightarrow> int \<Rightarrow>
     ((error + ExifToolManager) \<times> ExifToolProcess list) go" where
  "NewExifToolManager lookPath spawns workerCount =
     (case lookPath of
        Inl err \<Rightarrow> Returns (Inl (Errorf ''exiftool not found in PATH: '' err), [])
      | Inr p \<Rightarrow>
          if workerCount < 0 then Panics ''makeslice: len out of range''
          else Returns (startLoop spawns 0 (nat workerCount) []))"

text \<open>
  \<open>UpdateAllDates\<close> (main.go, 797-825). The command is written; then lines are read up
  to the \<open>{ready}\<close> line. A line with \<open>Error:\<close> or \<open>Warning:\<close> in it ends the call at
  once, with the lines after it still pending.
\<close>

datatype scan_exit = SawReady | ScanEnded | Flagged string

fun updateScan :: "string list \<Rightarrow> scan_exit \<times> string list" where
  "updateScan [] = (ScanEnded, [])"
| "updateScan (line # rest) =
     (if line = ''{ready}'' then (SawReady, rest)
      else if strings_Contains line ''Error:'' \<or> strings_Contains line ''Warning:''
      then (Flagged line, rest)
      else updateScan rest)"

definition UpdateAllDates ::
  "ExifToolProcess \<Rightarrow> path \<Rightarrow> string \<Rightarrow> error option \<times> ExifToolProcess" where
  "UpdateAllDates etp filePath dateStr =
     (let command = ''-overwrite_original'' @ [CHR 0x0A] @ ''-AllDates='' @ dateStr @ [CHR 0x0A] @
                    filePath @ [CHR 0x0A] @ ''-execute'' @ [CHR 0x0A]
      in case stdin_Write etp command of
           (Some err, etp1) \<Rightarrow> (Some (Errorf ''failed to write to exiftool stdin: '' err), etp1)
         | (None, etp1) \<Rightarrow>
             (case updateScan (pending etp1) of
                (Flagged line, rest) \<Rightarrow>
                  (Some (ErrorNew (''exiftool error: '' @ line)), etp1\<lparr>pending := rest\<rparr>)
              | (SawReady, rest) \<Rightarrow> (None, etp1\<lparr>pending := rest\<rparr>)
              | (ScanEnded, rest) \<Rightarrow>
                  (case scanFault etp1 of
                     Some err \<Rightarrow>
                       (Some (Errorf ''failed to read exiftool output: '' err), etp1\<lparr>pending := rest\<rparr>)
                   | None \<Rightarrow> (None, etp1\<lparr>pending := rest\<rparr>))))"

section \<open>Paths and patterns\<close>

text \<open>
  \<open>filepath.Ext\<close>: the scan runs from the end of the path to the first separator and
  returns the suffix that starts at the first dot it meets.
\<close>

fun extScan :: "string \<Rightarrow> string \<Rightarrow> string" where
  "extScan [] acc = []"
| "extScan (c # r) acc =
     (if c = CHR ''/'' then [] else if c = CHR ''.'' then c # acc else extScan r (c # acc))"

definition filepath_Ext :: "path \<Rightarrow> string" where
  "filepath_Ext p = extScan (rev p) []"

text \<open>
  \<open>filepath.Clean\<close> and \<open>filepath.Join\<close> (Unix), on the elements between the separators:
  empty elements and \<open>.\<close> are dropped, \<open>..\<close> removes the element before it when there is
  one to remove, is dropped at the root, and is kept otherwise. \<open>Join\<close> skips the empty
  arguments at the front, joins the others with separators and cleans the result.
\<close>

fun splitSlash :: "string \<Rightarrow> string \<Rightarrow> string list" where
  "splitSlash [] cur = [rev cur]"
| "splitSlash (c # s) cur =
     (if c = CHR ''/'' then rev cur # splitSlash s [] else splitSlash s (c # cur))"

fun cleanElems :: "bool \<Rightarrow> string list \<Rightarrow> string list \<Rightarrow> string list" where
  "cleanElems rooted [] out = rev out"
| "cleanElems rooted (e # es) out =
     (if e = [] \<or> e = ''.'' then cleanElems rooted es out
      else if e = ''..'' then
        (case out of
           el # below \<Rightarrow>
             if el \<noteq> ''..'' then cleanElems rooted es below
             else cleanElems rooted es (e # out)
         | [] \<Rightarrow> if rooted then cleanElems rooted es out else cleanElems rooted es (e # out))
      else cleanElems rooted es (e # out))"

fun joinSlash :: "string list \<Rightarrow> string" where
  "joinSlash [] = []"
| "joinSlash [e] = e"
| "joinSlash (e # es) = e @ ''/'' @ joinSlash es"

definition filepath_Clean :: "path \<Rightarrow> path" where
  "filepath_Clean p =
     (if p = [] then ''.''
      else let rooted = (hd p = CHR ''/'');
               elems = cleanElems rooted (splitSlash p []) []
           in if rooted then ''/'' @ joinSlash elems
              else if elems = [] then ''.'' else joinSlash elems)"

fun joinElems :: "string list \<Rightarrow> path" where
  "joinElems [] = []"
| "joinElems (e # es) = (if e \<noteq> [] then filepath_Clean (joinSlash (e # es)) else joinElems es)"

definition filepath_Join :: "string list \<Rightarrow> path" where
  "filepath_Join elems = joinElems elems"

definition byte :: "char \<Rightarrow> nat" where
  "byte c = of_char c"

text \<open>
  \<open>utf8.DecodeRune\<close> and \<open>utf8.EncodeRune\<close>: the rune and its width in bytes; an
  ill-formed sequence decodes to U+FFFD with width 1, and a surrogate or a value above
  U+10FFFF encodes as U+FFFD.
\<close>

definition decodeRune :: "string \<Rightarrow> nat \<times> nat" where
  "decodeRune s =
     (case s of
        [] \<Rightarrow> (0xFFFD, 0)
      | c0 # r \<Rightarrow>
          let b0 = byte c0 in
          if b0 < 0x80 then (b0, 1)
          else if b0 < 0xC2 \<or> 0xF4 < b0 then (0xFFFD, 1)
          else
            let sz = (if b0 < 0xE0 then 2 else if b0 < 0xF0 then 3 else 4);
                lo = (if b0 = 0xE0 then 0xA0 else if b0 = 0xF0 then 0x90 else 0x80);
                hi = (if b0 = 0xED then 0x9F else if b0 = 0xF4 then 0x8F else 0xBF)
            in if length s < sz then (0xFFFD, 1)
               else
                 let b1 = byte (s ! 1) in
                 if b1 < lo \<or> hi < b1 then (0xFFFD, 1)
                 else if sz = 2 then ((b0 mod 32) * 64 + b1 mod 64, 2)
                 else
                   let b2 = byte (s ! 2) in
                   if b2 < 0x80 \<or> 0xBF < b2 then (0xFFFD, 1)
                   else if sz = 3 then ((b0 mod 16) * 4096 + (b1 mod 64) * 64 + b2 mod 64, 3)
                   else
                     let b3 = byte (s ! 3) in
                     if b3 < 0x80 \<or> 0xBF < b3 then (0xFFFD, 1)
                     else ((b0 mod 8) * 262144 + (b1 mod 64) * 4096 + (b2 mod 64) * 64 + b3 mod 64, 4))"

definition encodeRune :: "nat \<Rightarrow> string" where
  "encodeRune r =
     (if r < 0x80 then [char_of r]
      else if r < 0x800 then [char_of (0xC0 + r div 64), char_of (0x80 + r mod 64)]
      else if (0xD800 \<le> r \<and> r < 0xE000) \<or> 0x10FFFF < r then [CHR 0xEF, CHR 0xBF, CHR 0xBD]
      else if r < 0x10000 then
        [char_of (0xE0 + r div 4096), char_of (0x80 + (r div 64) mod 64), char_of (0x80 + r mod 64)]
      else
        [char_of (0xF0 + r div 262144), char_of (0x80 + (r div 4096) mod 64),
         char_of (0x80 + (r div 64) mod 64), char_of (0x80 + r mod 64)])"

text \<open>
  A string read as Go reads it rune by rune (\<open>for range\<close>, the parser and the matcher of
  package \<open>regexp\<close>): \<open>runeSeq\<close> is the sequence of the runes with their widths, each
  ill-formed byte being U+FFFD of width 1. \<open>utf8.ValidString\<close> holds when no byte is
  ill-formed.
\<close>

fun runeSeq :: "string \<Rightarrow> (nat \<times> nat) list" where
  "runeSeq [] = []"
| "runeSeq (c # s) = decodeRune (c # s) # runeSeq (drop (snd (decodeRune (c # s)) - 1) s)"

definition runes :: "string \<Rightarrow> nat list" where
  "runes s = map fst (runeSeq s)"

definition utf8_ValidString :: "string \<Rightarrow> bool" where
  "utf8_ValidString s = ((0xFFFD, 1) \<notin> set (runeSeq s))"

text \<open>
  The regular expressions of the program have few shapes, all anchored at both ends. A
  pattern is the list of its parts: \<open>Lit l\<close> is the text \<open>l\<close> as \<open>regexp.QuoteMeta\<close>
  quotes it, \<open>AnyStar\<close> is \<open>.*\<close> and \<open>OptDotAny\<close> is \<open>(?:\..*)?\<close>. Go matches rune by
  rune: the input is read as \<open>runes\<close> reads it, a quoted text matches its own runes (so
  U+FFFD in a pattern also matches an ill-formed byte of the input), and the dot matches
  every rune but the newline. \<open>rmatch\<close> matches a pattern against a sequence of runes
  and \<open>regexp_MatchString\<close> is \<open>MatchString\<close>.

  \<open>regexp.Compile\<close> fails on a pattern that is not well-formed UTF-8, which here is a
  quoted text that is not (the other parts are ASCII).
\<close>

datatype node = Lit string | AnyStar | OptDotAny

fun nodeWeight :: "node \<Rightarrow> nat" where
  "nodeWeight (Lit l) = 1"
| "nodeWeight AnyStar = 1"
| "nodeWeight OptDotAny = 3"

function rmatch :: "node list \<Rightarrow> nat list \<Rightarrow> bool" where
  "rmatch [] rs = (rs = [])"
| "rmatch (Lit l # r) rs = (prefix (runes l) rs \<and> rmatch r (drop (length (runes l)) rs))"
| "rmatch (AnyStar # r) [] = rmatch r []"
| "rmatch (AnyStar # r) (c # rs) = (rmatch r (c # rs) \<or> (c \<noteq> 0x0A \<and> rmatch (AnyStar # r) rs))"
| "rmatch (OptDotAny # r) rs = (rmatch r rs \<or> rmatch (Lit ''.'' # AnyStar # r) rs)"
  by pat_completeness auto
termination
  by (relation "measure (\<lambda>(p, rs). sum_list (map nodeWeight p) + length rs)") auto

definition regexp_MatchString :: "node list \<Rightarrow> string \<Rightarrow> bool" where
  "regexp_MatchString re s = rmatch re (runes s)"

fun literalsValid :: "node list \<Rightarrow> bool" where
  "literalsValid [] = True"
| "literalsValid (Lit l # r) = (utf8_ValidString l \<and> literalsValid r)"
| "literalsValid (n # r) = literalsValid r"

definition regexp_Compile :: "node list \<Rightarrow> node list option" where
  "regexp_Compile p = (if literalsValid p then Some p else None)"

text \<open>
  \<open>numberSuffixRegex.FindStringSubmatch\<close> for \<open>^(.+)\((\d+)\)$\<close>: the text must end in
  \<open>)\<close>, before it a run of ASCII digits, before them \<open>(\<close>, before it at least one
  character and no newline. The result is the two groups; a text has at most one such
  split (see \<open>numberSuffixRegex_iff\<close>). Bytes and runes agree here: the dot takes an
  ill-formed byte as it takes any rune, and the other characters are ASCII.
\<close>

definition isDigit :: "char \<Rightarrow> bool" where
  "isDigit c = (c \<in> set ''0123456789'')"

definition numberSuffixRegex :: "string \<Rightarrow> (string \<times> string) option" where
  "numberSuffixRegex s =
     (case rev s of
        [] \<Rightarrow> None
      | c # r \<Rightarrow>
          if c \<noteq> CHR '')'' then None
          else (case dropWhile isDigit r of
                  [] \<Rightarrow> None
                | b # g \<Rightarrow>
                    if b = CHR ''('' \<and> takeWhile isDigit r \<noteq> [] \<and> g \<noteq> [] \<and> CHR 0x0A \<notin> set g
                    then Some (rev g, rev (takeWhile isDigit r))
                    else None))"

section \<open>The companion matcher\<close>

record MediaFile =
  Path :: path
  BaseName :: string
  Dir :: path

text \<open>
  The first entry of the listing, in its order, that is not a directory, matches the
  pattern and passes the content validation (the inner loop of \<open>findSidecarFile\<close>);
  \<open>None\<close> when the loop ends without a return.
\<close>

fun scanEntries :: "world \<Rightarrow> path \<Rightarrow> node list \<Rightarrow> DirEntry list \<Rightarrow> path option" where
  "scanEntries w dir re [] = None"
| "scanEntries w dir re (entry # rest) =
     (if \<not> IsDir entry \<and> regexp_MatchString re (Name entry) \<and>
         isGooglePhotosSidecar w (filepath_Join [dir, Name entry])
      then Some (filepath_Join [dir, Name entry])
      else scanEntries w dir re rest)"

fun tryPatterns :: "world \<Rightarrow> path \<Rightarrow> node list list \<Rightarrow> DirEntry list \<Rightarrow> path option" where
  "tryPatterns w dir [] entries = None"
| "tryPatterns w dir (pattern # rest) entries =
     (case regexp_Compile pattern of
        None \<Rightarrow> tryPatterns w dir rest entries
      | Some re \<Rightarrow>
          (case scanEntries w dir re entries of
             Some sidecarPath \<Rightarrow> Some sidecarPath
           | None \<Rightarrow> tryPatterns w dir rest entries))"

text \<open>
  \<open>findSidecarWithPrefixMatching\<close> (main.go, 466-527). \<open>splitNumbered\<close> is the head of
  the function: the stem to match with (\<open>baseForMatching\<close>) and the number token
  (\<open>numberSuffix\<close>, empty when the name has none).
\<close>

definition splitNumbered :: "string \<Rightarrow> string \<times> string" where
  "splitNumbered baseName =
     (let baseNameNoExt = strings_TrimSuffix baseName (filepath_Ext baseName)
      in case numberSuffixRegex baseNameNoExt of
           Some (m1, m2) \<Rightarrow> (m1, ''('' @ m2 @ '')'')
         | None \<Rightarrow> (baseNameNoExt, []))"

definition lengthOk :: "string \<Rightarrow> string \<Rightarrow> string \<Rightarrow> bool" where
  "lengthOk baseForMatching numberSuffix entryName =
     (let sidecarName = strings_TrimSuffix entryName ''.json'';
          sidecarName' = (if numberSuffix \<noteq> [] then strings_TrimSuffix sidecarName numberSuffix
                          else sidecarName);
          maxLenDiff = int (length baseForMatching) div 3
      in int (length baseForMatching) - int (length sidecarName') \<le> maxLenDiff \<and>
         int (length baseForMatching) - int (length sidecarName') \<ge> 0)"

fun scanPrefixEntries ::
  "world \<Rightarrow> path \<Rightarrow> string \<Rightarrow> string \<Rightarrow> node list \<Rightarrow> DirEntry list \<Rightarrow> path option" where
  "scanPrefixEntries w dir baseForMatching numberSuffix re [] = None"
| "scanPrefixEntries w dir baseForMatching numberSuffix re (entry # rest) =
     (if \<not> IsDir entry \<and> regexp_MatchString re (Name entry) \<and>
         isGooglePhotosSidecar w (filepath_Join [dir, Name entry]) \<and>
         lengthOk baseForMatching numberSuffix (Name entry)
      then Some (filepath_Join [dir, Name entry])
      else scanPrefixEntries w dir baseForMatching numberSuffix re rest)"

text \<open>
  The body of the outer loop at one prefix length: the pattern is built and compiled, and
  the listing is scanned; \<open>None\<close> when the loop goes on to the next length.
\<close>

definition tryPrefix ::
  "world \<Rightarrow> path \<Rightarrow> DirEntry list \<Rightarrow> string \<Rightarrow> string \<Rightarrow> int \<Rightarrow> path option" where
  "tryPrefix w dir entries baseForMatching numberSuffix prefixLen =
     (case regexp_Compile
             [Lit (take (nat prefixLen) baseForMatching), AnyStar, Lit numberSuffix, Lit ''.json''] of
        None \<Rightarrow> None
      | Some re \<Rightarrow> scanPrefixEntries w dir baseForMatching numberSuffix re entries)"

function prefixLoop ::
  "world \<Rightarrow> path \<Rightarrow> DirEntry list \<Rightarrow> string \<Rightarrow> string \<Rightarrow> int \<Rightarrow> int \<Rightarrow> path" where
  "prefixLoop w dir entries baseForMatching numberSuffix minPrefixLength prefixLen =
     (if prefixLen \<ge> minPrefixLength then
        (case tryPrefix w dir entries baseForMatching numberSuffix prefixLen of
           Some sidecarPath \<Rightarrow> sidecarPath
         | None \<Rightarrow>
             prefixLoop w dir entries baseForMatching numberSuffix minPrefixLength (prefixLen - 1))
      else [])"
  by pat_completeness auto
termination
  by (relation "measure (\<lambda>(w, dir, entries, b, n, minLen, prefixLen). nat (prefixLen - minLen + 1))") auto

declare prefixLoop.simps [simp del]

definition findSidecarWithPrefixMatching :: "world \<Rightarrow> MediaFile \<Rightarrow> DirEntry list \<Rightarrow> path" where
  "findSidecarWithPrefixMatching w file entries =
     (case splitNumbered (BaseName file) of
        (baseForMatching, numberSuffix) \<Rightarrow>
          let minPrefixLength = (if int (length baseForMatching) < 10 then int (length baseForMatching) else 10)
          in prefixLoop w (Dir file) entries baseForMatching numberSuffix minPrefixLength
               (int (length baseForMatching)))"

text \<open>
  \<open>findSidecarFile\<close> (main.go, 381-464). \<open>numberSuffix\<close> is the text that the pattern
  fragment \<open>\(N\)\<close> matches. The patterns with and without a number token are built as
  the two branches of the source build them.
\<close>

definition sidecarPatterns :: "string \<Rightarrow> node list list" where
  "sidecarPatterns baseName =
     (let baseNameNoExt = strings_TrimSuffix baseName (filepath_Ext baseName);
          (baseForSidecar, numberSuffix) =
             (case numberSuffixRegex baseNameNoExt of
                Some (m1, m2) \<Rightarrow> (m1 @ filepath_Ext baseName, ''('' @ m2 @ '')'')
              | None \<Rightarrow> (baseName, []));
          stripped = strings_HasSuffix
                       (strings_TrimSuffix baseForSidecar (filepath_Ext baseForSidecar)) ''_'';
          ext = filepath_Ext baseForSidecar;
          nameWithoutExt = strings_TrimSuffix baseForSidecar ext;
          baseForSidecarNoUnderscore =
             (if stripped then strings_TrimSuffix nameWithoutExt ''_'' @ ext else baseForSidecar);
          baseNameNoUnderscoreNoExt =
             (if stripped then strings_TrimSuffix nameWithoutExt ''_'' else [])
      in if numberSuffix \<noteq> [] then
           [Lit baseForSidecar, OptDotAny, Lit numberSuffix, Lit ''.json''] #
           (if baseForSidecarNoUnderscore \<noteq> baseForSidecar
            then [[Lit baseForSidecarNoUnderscore, OptDotAny, Lit numberSuffix, Lit ''.json''],
                  [Lit baseNameNoUnderscoreNoExt, Lit numberSuffix, Lit ''.json'']]
            else [])
         else
           [Lit baseForSidecar, OptDotAny, Lit ''.json''] #
           (if baseForSidecarNoUnderscore \<noteq> baseForSidecar
            then [[Lit baseForSidecarNoUnderscore, OptDotAny, Lit ''.json''],
                  [Lit baseNameNoUnderscoreNoExt, Lit ''.json'']]
            else []))"

definition findSidecarFile :: "world \<Rightarrow> MediaFile \<Rightarrow> path" where
  "findSidecarFile w file =
     (case ReadDir w (Dir file) of
        Inl err \<Rightarrow> []
      | Inr entries \<Rightarrow>
          (case tryPatterns w (Dir file) (sidecarPatterns (BaseName file)) entries of
             Some sidecarPath \<Rightarrow> sidecarPath
           | None \<Rightarrow> findSidecarWithPrefixMatching w file entries))"

section \<open>JSON, as \<open>encoding/json\<close> reads it\<close>

text \<open>
  \<open>json.Unmarshal\<close> first checks the whole input against the JSON grammar and then
  decodes it into the Go value. The check is modelled in two steps: \<open>json_lex\<close> cuts the
  input into tokens (white space is space, tab, carriage return and newline; a string
  token keeps the raw text between its quotes), and \<open>json_parse\<close> builds the value from
  the tokens with a stack of the arrays and objects that are still open. Number and
  literal tokens are the longest run of their characters, which accepts the same inputs
  as Go's scanner since no grammar rule lets two of these characters meet across a
  token boundary.
\<close>

datatype json =
    JNull
  | JBool bool
  | JNumber string
  | JString string
  | JArray "json list"
  | JObject "(string \<times> json) list"

datatype token =
    LBrace | RBrace | LBracket | RBracket | Colon | Comma
  | TString string
  | TNumber string
  | TLiteral string

definition isHex :: "char \<Rightarrow> bool" where
  "isHex c = (c \<in> set ''0123456789abcdefABCDEF'')"

text \<open>
  The raw text of a string, after the opening quote: it ends at the first quote that
  is not escaped; a backslash is followed by one of \<open>"\/bfnrt\<close> or by \<open>u\<close> and four
  hexadecimal digits; a character below \<open>0x20\<close> is refused.
\<close>

definition isSimpleEscape :: "char \<Rightarrow> bool" where
  "isSimpleEscape e =
     (e \<in> set [CHR 0x22, CHR 0x5C, CHR ''/'', CHR ''b'', CHR ''f'', CHR ''n'', CHR ''r'', CHR ''t''])"

fun lexString :: "string \<Rightarrow> string \<Rightarrow> (string \<times> string) option" where
  "lexString [] acc = None"
| "lexString (c # s) acc =
     (if c = CHR 0x22 then Some (rev acc, s)
      else if c = CHR 0x5C then
        (case s of
           [] \<Rightarrow> None
         | e # s' \<Rightarrow>
             if isSimpleEscape e then lexString s' (e # c # acc)
             else if e = CHR ''u'' then
               (case s' of
                  h1 # h2 # h3 # h4 # s'' \<Rightarrow>
                    if isHex h1 \<and> isHex h2 \<and> isHex h3 \<and> isHex h4
                    then lexString s'' (h4 # h3 # h2 # h1 # e # c # acc)
                    else None
                | _ \<Rightarrow> None)
             else None)
      else if byte c < 0x20 then None
      else lexString s (c # acc))"

lemma lexString_length: "lexString s acc = Some (raw, rest) \<Longrightarrow> length rest < Suc (length s)"
  by (induction s acc rule: lexString.induct) (fastforce split: if_splits list.splits)+

definition isNumberChar :: "char \<Rightarrow> bool" where
  "isNumberChar c = (c \<in> set ''0123456789+-.eE'')"

definition isLower :: "char \<Rightarrow> bool" where
  "isLower c = (c \<in> set ''abcdefghijklmnopqrstuvwxyz'')"

text \<open>
  The grammar of a number: an optional minus, \<open>0\<close> or a digit from 1 to 9 with more
  digits, an optional fraction (a dot and digits) and an optional exponent (\<open>e\<close> or
  \<open>E\<close>, an optional sign and digits).
\<close>

definition digitsThen :: "string \<Rightarrow> (string \<Rightarrow> bool) \<Rightarrow> bool" where
  "digitsThen s k = (takeWhile isDigit s \<noteq> [] \<and> k (dropWhile isDigit s))"

definition validExponent :: "string \<Rightarrow> bool" where
  "validExponent s =
     (case s of
        [] \<Rightarrow> True
      | c # r \<Rightarrow>
          (c = CHR ''e'' \<or> c = CHR ''E'') \<and>
          (case r of
             [] \<Rightarrow> False
           | g # r' \<Rightarrow> if g = CHR ''+'' \<or> g = CHR ''-'' then digitsThen r' (\<lambda>t. t = [])
                       else digitsThen r (\<lambda>t. t = [])))"

definition validFraction :: "string \<Rightarrow> bool" where
  "validFraction s =
     (case s of
        [] \<Rightarrow> True
      | c # r \<Rightarrow> if c = CHR ''.'' then digitsThen r validExponent else validExponent s)"

definition validNumber :: "string \<Rightarrow> bool" where
  "validNumber s =
     (let u = (case s of [] \<Rightarrow> [] | c # r \<Rightarrow> if c = CHR ''-'' then r else s)
      in case u of
           [] \<Rightarrow> False
         | d # r \<Rightarrow>
             if d = CHR ''0'' then validFraction r
             else isDigit d \<and> validFraction (dropWhile isDigit r))"

function json_lex :: "string \<Rightarrow> token list option" where
  "json_lex [] = Some []"
| "json_lex (c # s) =
     (if c = CHR '' '' \<or> c = CHR 0x09 \<or> c = CHR 0x0D \<or> c = CHR 0x0A then json_lex s
      else if c = CHR ''{'' then map_option ((#) LBrace) (json_lex s)
      else if c = CHR ''}'' then map_option ((#) RBrace) (json_lex s)
      else if c = CHR ''['' then map_option ((#) LBracket) (json_lex s)
      else if c = CHR '']'' then map_option ((#) RBracket) (json_lex s)
      else if c = CHR '':'' then map_option ((#) Colon) (json_lex s)
      else if c = CHR '','' then map_option ((#) Comma) (json_lex s)
      else if c = CHR 0x22 then
        (case lexString s [] of
           None \<Rightarrow> None
         | Some (raw, rest) \<Rightarrow> map_option ((#) (TString raw)) (json_lex rest))
      else if isNumberChar c then
        (if validNumber (c # takeWhile isNumberChar s)
         then map_option ((#) (TNumber (c # takeWhile isNumberChar s))) (json_lex (dropWhile isNumberChar s))
         else None)
      else if isLower c then
        (if c # takeWhile isLower s \<in> set [''true'', ''false'', ''null'']
         then map_option ((#) (TLiteral (c # takeWhile isLower s))) (json_lex (dropWhile isLower s))
         else None)
      else None)"
  by pat_completeness auto
termination
  by (relation "measure length")
     (auto simp: le_imp_less_Suc length_dropWhile_le dest: lexString_length)

text \<open>
  The parser. A frame is an open array with its elements so far (last first), or an open
  object with its members so far (last first) and the key that waits for its value. The
  phases are the states of Go's scanner: before a value, after \<open>[\<close>, after \<open>{\<close>,
  after a comma in an object, after a key, after a value, and after the top-level
  value. An array or object is opened only while fewer than 10000 are open.
\<close>

datatype frame =
    ArrayFrame "json list"
  | ObjectFrame "(string \<times> json) list" "string option"

datatype phase =
    BeginValue | BeginValueOrEmpty | BeginStringOrEmpty | BeginString | AfterKey | AfterValue
  | Finished json

fun deliver :: "json \<Rightarrow> frame list \<Rightarrow> (phase \<times> frame list) option" where
  "deliver v [] = Some (Finished v, [])"
| "deliver v (ArrayFrame elems # st) = Some (AfterValue, ArrayFrame (v # elems) # st)"
| "deliver v (ObjectFrame members (Some k) # st) =
     Some (AfterValue, ObjectFrame ((k, v) # members) None # st)"
| "deliver v (ObjectFrame members None # st) = None"

text \<open>
  The text of a string token becomes the string value later, by \<open>unquote\<close>; the parser
  takes the function as an argument.
\<close>

fun beginValue :: "(string \<Rightarrow> string) \<Rightarrow> token \<Rightarrow> frame list \<Rightarrow> (phase \<times> frame list) option" where
  "beginValue uq (TString raw) st = deliver (JString (uq raw)) st"
| "beginValue uq (TNumber n) st = deliver (JNumber n) st"
| "beginValue uq (TLiteral l) st =
     deliver (if l = ''true'' then JBool True else if l = ''false'' then JBool False else JNull) st"
| "beginValue uq LBracket st =
     (if length st < 10000 then Some (BeginValueOrEmpty, ArrayFrame [] # st) else None)"
| "beginValue uq LBrace st =
     (if length st < 10000 then Some (BeginStringOrEmpty, ObjectFrame [] None # st) else None)"
| "beginValue uq t st = None"

fun beginKey :: "(string \<Rightarrow> string) \<Rightarrow> token \<Rightarrow> frame list \<Rightarrow> (phase \<times> frame list) option" where
  "beginKey uq (TString raw) (ObjectFrame members None # st) =
     Some (AfterKey, ObjectFrame members (Some (uq raw)) # st)"
| "beginKey uq t st = None"

fun closeFrame :: "token \<Rightarrow> frame list \<Rightarrow> (phase \<times> frame list) option" where
  "closeFrame RBracket (ArrayFrame elems # st) = deliver (JArray (rev elems)) st"
| "closeFrame RBrace (ObjectFrame members None # st) = deliver (JObject (rev members)) st"
| "closeFrame t st = None"

fun afterValue :: "token \<Rightarrow> frame list \<Rightarrow> (phase \<times> frame list) option" where
  "afterValue Comma (ArrayFrame elems # st) = Some (BeginValue, ArrayFrame elems # st)"
| "afterValue Comma (ObjectFrame members None # st) = Some (BeginString, ObjectFrame members None # st)"
| "afterValue t st = closeFrame t st"

fun parseStep :: "(string \<Rightarrow> string) \<Rightarrow> phase \<Rightarrow> token \<Rightarrow> frame list \<Rightarrow> (phase \<times> frame list) option" where
  "parseStep uq BeginValue t st = beginValue uq t st"
| "parseStep uq BeginValueOrEmpty t st = (if t = RBracket then closeFrame t st else beginValue uq t st)"
| "parseStep uq BeginStringOrEmpty t st = (if t = RBrace then closeFrame t st else beginKey uq t st)"
| "parseStep uq BeginString t st = beginKey uq t st"
| "parseStep uq AfterKey t st = (if t = Colon then Some (BeginValue, st) else None)"
| "parseStep uq AfterValue t st = afterValue t st"
| "parseStep uq (Finished v) t st = None"

fun parseTokens :: "(string \<Rightarrow> string) \<Rightarrow> phase \<Rightarrow> frame list \<Rightarrow> token list \<Rightarrow> json option" where
  "parseTokens uq ph st [] = (case ph of Finished v \<Rightarrow> Some v | _ \<Rightarrow> None)"
| "parseTokens uq ph st (t # ts) =
     (case parseStep uq ph t st of
        None \<Rightarrow> None
      | Some (ph', st') \<Rightarrow> parseTokens uq ph' st' ts)"

text \<open>
  \<open>unquote\<close> turns the raw text of a string token into its value: an escape becomes its
  character, \<open>\uXXXX\<close> its rune in UTF-8 (two escapes that form a surrogate pair become
  one rune, a surrogate alone becomes U+FFFD), and bytes that are not well-formed UTF-8
  become U+FFFD.
\<close>

definition hexVal :: "char \<Rightarrow> nat" where
  "hexVal c = (if isDigit c then byte c - 48 else if 97 \<le> byte c then byte c - 87 else byte c - 55)"

definition getu4 :: "string \<Rightarrow> nat option" where
  "getu4 s =
     (case s of
        b # u # h1 # h2 # h3 # h4 # r \<Rightarrow>
          if b = CHR 0x5C \<and> u = CHR ''u'' \<and> isHex h1 \<and> isHex h2 \<and> isHex h3 \<and> isHex h4
          then Some (((hexVal h1 * 16 + hexVal h2) * 16 + hexVal h3) * 16 + hexVal h4)
          else None
      | _ \<Rightarrow> None)"

definition simpleEscape :: "char \<Rightarrow> char" where
  "simpleEscape e =
     (if e = CHR ''b'' then CHR 0x08 else if e = CHR ''f'' then CHR 0x0C
      else if e = CHR ''n'' then CHR 0x0A else if e = CHR ''r'' then CHR 0x0D
      else if e = CHR ''t'' then CHR 0x09 else e)"

function unquote :: "string \<Rightarrow> string" where
  "unquote [] = []"
| "unquote (c # s) =
     (if c = CHR 0x5C then
        (case s of
           [] \<Rightarrow> []
         | e # s' \<Rightarrow>
             if e = CHR ''u'' then
               (case getu4 (c # s) of
                  None \<Rightarrow> []
                | Some rr \<Rightarrow>
                    if 0xD800 \<le> rr \<and> rr < 0xE000 then
                      (case getu4 (drop 4 s') of
                         None \<Rightarrow> encodeRune 0xFFFD @ unquote (drop 4 s')
                       | Some rr1 \<Rightarrow>
                           if rr < 0xDC00 \<and> 0xDC00 \<le> rr1 \<and> rr1 < 0xE000
                           then encodeRune ((rr - 0xD800) * 1024 + (rr1 - 0xDC00) + 0x10000) @
                                unquote (drop 10 s')
                           else encodeRune 0xFFFD @ unquote (drop 4 s'))
                    else encodeRune rr @ unquote (drop 4 s'))
             else simpleEscape e # unquote s')
      else if byte c < 0x80 then c # unquote s
      else encodeRune (fst (decodeRune (c # s))) @ unquote (drop (snd (decodeRune (c # s)) - 1) s))"
  by pat_completeness auto
termination
  by (relation "measure length") (auto simp: le_imp_less_Suc)

definition json_decode :: "string \<Rightarrow> json option" where
  "json_decode data =
     (case json_lex data of
        None \<Rightarrow> None
      | Some ts \<Rightarrow> parseTokens unquote BeginValue [] ts)"

text \<open>
  Decoding into a struct. A key of the input names a field when it is the field's name
  up to case, as \<open>bytes.EqualFold\<close> has it: an ASCII letter matches in both cases, and
  \<open>k\<close> and \<open>s\<close> also match the Kelvin sign (U+212A) and the long s (U+017F). A value of
  the wrong kind is an \<open>UnmarshalTypeError\<close>: the decoder goes on and returns the first
  such error at the end. \<open>null\<close> leaves the field as it is, and later members overwrite
  earlier ones.
\<close>

definition toLower :: "char \<Rightarrow> char" where
  "toLower c = (if 65 \<le> byte c \<and> byte c \<le> 90 then char_of (byte c + 32) else c)"

fun foldMatch :: "string \<Rightarrow> string \<Rightarrow> bool" where
  "foldMatch [] key = (key = [])"
| "foldMatch (f # fs) [] = False"
| "foldMatch (f # fs) (c # cs) =
     (if toLower c = toLower f then foldMatch fs cs
      else if toLower f = CHR ''k'' \<and> prefix [CHR 0xE2, CHR 0x84, CHR 0xAA] (c # cs)
      then foldMatch fs (drop 2 cs)
      else if toLower f = CHR ''s'' \<and> prefix [CHR 0xC5, CHR 0xBF] (c # cs)
      then foldMatch fs (drop 1 cs)
      else False)"

record PhotoTakenTime =
  Timestamp :: string

record AlbumMetadata =
  Title :: string

record SidecarData =
  Title :: string
  PhotoTakenTime :: PhotoTakenTime

definition saveError :: "error option \<Rightarrow> error \<Rightarrow> error option" where
  "saveError saved err = (case saved of None \<Rightarrow> Some err | Some first \<Rightarrow> Some first)"

fun decodeString :: "string \<Rightarrow> json \<Rightarrow> string \<times> error option \<Rightarrow> string \<times> error option" where
  "decodeString field (JString s) (cur, saved) = (s, saved)"
| "decodeString field JNull (cur, saved) = (cur, saved)"
| "decodeString field v (cur, saved) = (cur, saveError saved (UnmarshalTypeError field))"

fun decodePhotoTakenTime ::
  "(string \<times> json) list \<Rightarrow> PhotoTakenTime \<times> error option \<Rightarrow> PhotoTakenTime \<times> error option" where
  "decodePhotoTakenTime [] acc = acc"
| "decodePhotoTakenTime ((key, v) # members) (t, saved) =
     (if foldMatch ''timestamp'' key
      then (case decodeString ''photoTakenTime.timestamp'' v (Timestamp t, saved) of
              (s, saved') \<Rightarrow> decodePhotoTakenTime members (t\<lparr>Timestamp := s\<rparr>, saved'))
      else decodePhotoTakenTime members (t, saved))"

fun decodeSidecarData ::
  "(string \<times> json) list \<Rightarrow> SidecarData \<times> error option \<Rightarrow> SidecarData \<times> error option" where
  "decodeSidecarData [] acc = acc"
| "decodeSidecarData ((key, v) # members) (d, saved) =
     (if foldMatch ''title'' key
      then (case decodeString ''title'' v (SidecarData.Title d, saved) of
              (s, saved') \<Rightarrow> decodeSidecarData members (d\<lparr>SidecarData.Title := s\<rparr>, saved'))
      else if foldMatch ''photoTakenTime'' key
      then (case v of
              JObject ms \<Rightarrow>
                (case decodePhotoTakenTime ms (PhotoTakenTime d, saved) of
                   (t, saved') \<Rightarrow> decodeSidecarData members (d\<lparr>PhotoTakenTime := t\<rparr>, saved'))
            | JNull \<Rightarrow> decodeSidecarData members (d, saved)
            | _ \<Rightarrow> decodeSidecarData members (d, saveError saved (UnmarshalTypeError ''photoTakenTime'')))
      else decodeSidecarData members (d, saved))"

definition unmarshalSidecarData :: "string \<Rightarrow> error + SidecarData" where
  "unmarshalSidecarData data =
     (let zero = \<lparr>SidecarData.Title = [], PhotoTakenTime = \<lparr>Timestamp = []\<rparr>\<rparr>
      in case json_decode data of
           None \<Rightarrow> Inl SyntaxError
         | Some (JObject members) \<Rightarrow>
             (case decodeSidecarData members (zero, None) of
                (d, None) \<Rightarrow> Inr d
              | (d, Some err) \<Rightarrow> Inl err)
         | Some JNull \<Rightarrow> Inr zero
         | Some v \<Rightarrow> Inl (UnmarshalTypeError ''SidecarData''))"

fun decodeAlbumMetadata ::
  "(string \<times> json) list \<Rightarrow> AlbumMetadata \<times> error option \<Rightarrow> AlbumMetadata \<times> error option" where
  "decodeAlbumMetadata [] acc = acc"
| "decodeAlbumMetadata ((key, v) # members) (d, saved) =
     (if foldMatch ''title'' key
      then (case decodeString ''title'' v (AlbumMetadata.Title d, saved) of
              (s, saved') \<Rightarrow> decodeAlbumMetadata members (d\<lparr>AlbumMetadata.Title := s\<rparr>, saved'))
      else decodeAlbumMetadata members (d, saved))"

definition unmarshalAlbumMetadata :: "string \<Rightarrow> error + AlbumMetadata" where
  "unmarshalAlbumMetadata data =
     (let zero = \<lparr>AlbumMetadata.Title = []\<rparr>
      in case json_decode data of
           None \<Rightarrow> Inl SyntaxError
         | Some (JObject members) \<Rightarrow>
             (case decodeAlbumMetadata members (zero, None) of
                (d, None) \<Rightarrow> Inr d
              | (d, Some err) \<Rightarrow> Inl err)
         | Some JNull \<Rightarrow> Inr zero
         | Some v \<Rightarrow> Inl (UnmarshalTypeError ''AlbumMetadata''))"

text \<open>
  Decoding into \<open>[]map[string]interface{}\<close>: the input is an array (or \<open>null\<close>, the nil
  slice) of objects (or \<open>null\<close>, the nil map); in a map a later member replaces an earlier
  one of the same key. A number inside an object becomes a \<open>float64\<close>, and one that
  rounds to infinity is an error: with the digits \<open>m\<close> of its integer and fraction part,
  \<open>f\<close> digits in the fraction and the exponent \<open>e\<close>, that is
  \<open>m * 10 ^ (e - f) \<ge> 2 ^ 1024 - 2 ^ 970\<close>. The map keeps the numbers as text.
\<close>

definition digitsValue :: "string \<Rightarrow> nat" where
  "digitsValue ds = foldl (\<lambda>n c. n * 10 + (byte c - 48)) 0 ds"

definition numberOverflows :: "string \<Rightarrow> bool" where
  "numberOverflows num =
     (let u = (case num of [] \<Rightarrow> [] | c # r \<Rightarrow> if c = CHR ''-'' then r else num);
          ip = takeWhile isDigit u;
          r1 = dropWhile isDigit u;
          fp = (case r1 of [] \<Rightarrow> [] | c # r \<Rightarrow> if c = CHR ''.'' then takeWhile isDigit r else []);
          r2 = (case r1 of [] \<Rightarrow> [] | c # r \<Rightarrow> if c = CHR ''.'' then dropWhile isDigit r else r1);
          ex = (case r2 of
                  [] \<Rightarrow> 0
                | c # r \<Rightarrow>
                    (case r of
                       [] \<Rightarrow> 0
                     | g # r' \<Rightarrow>
                         if g = CHR ''-'' then - int (digitsValue r')
                         else if g = CHR ''+'' then int (digitsValue r')
                         else int (digitsValue r)));
          m = digitsValue (ip @ fp);
          p = ex - int (length fp)
      in if 0 \<le> p then 2 ^ 1024 - 2 ^ 970 \<le> m * 10 ^ nat p
         else (2 ^ 1024 - 2 ^ 970) * 10 ^ nat (- p) \<le> m)"

fun jsonNumbers :: "json \<Rightarrow> string list" where
  "jsonNumbers (JNumber n) = [n]"
| "jsonNumbers (JArray vs) = concat (map jsonNumbers vs)"
| "jsonNumbers (JObject ms) = concat (map (\<lambda>m. jsonNumbers (snd m)) ms)"
| "jsonNumbers v = []"

fun saveOverflows :: "string list \<Rightarrow> error option \<Rightarrow> error option" where
  "saveOverflows [] saved = saved"
| "saveOverflows (n # ns) saved =
     saveOverflows ns (if numberOverflows n then saveError saved (UnmarshalTypeError ''float64'') else saved)"

fun objectMap :: "(string \<times> json) list \<Rightarrow> (string \<rightharpoonup> json) \<Rightarrow> (string \<rightharpoonup> json)" where
  "objectMap [] m = m"
| "objectMap ((key, v) # members) m = objectMap members (m(key \<mapsto> v))"

fun decodeMaps ::
  "json list \<Rightarrow> error option \<Rightarrow> (string \<rightharpoonup> json) list \<times> error option" where
  "decodeMaps [] saved = ([], saved)"
| "decodeMaps (v # vs) saved =
     (case v of
        JObject members \<Rightarrow>
          (case decodeMaps vs (saveOverflows (jsonNumbers v) saved) of
             (ms, saved') \<Rightarrow> (objectMap members Map.empty # ms, saved'))
      | JNull \<Rightarrow> (case decodeMaps vs saved of (ms, saved') \<Rightarrow> (Map.empty # ms, saved'))
      | _ \<Rightarrow>
          (case decodeMaps vs (saveError saved (UnmarshalTypeError ''map[string]interface {}'')) of
             (ms, saved') \<Rightarrow> (Map.empty # ms, saved')))"

definition unmarshalExifData :: "string \<Rightarrow> error + (string \<rightharpoonup> json) list" where
  "unmarshalExifData data =
     (case json_decode data of
        None \<Rightarrow> Inl SyntaxError
      | Some (JArray elems) \<Rightarrow>
          (case decodeMaps elems None of
             (ms, None) \<Rightarrow> Inr ms
           | (ms, Some err) \<Rightarrow> Inl err)
      | Some JNull \<Rightarrow> Inr []
      | Some v \<Rightarrow> Inl (UnmarshalTypeError ''[]map[string]interface {}''))"

section \<open>Timestamps\<close>

text \<open>
  \<open>strconv.ParseInt(s, 10, 64)\<close>: an optional sign, then decimal digits only and at
  least one; the loop stops with a range error as soon as the digits read so far exceed
  64 bits, and the signed value has to fit an \<open>int64\<close>.
\<close>

fun parseUintLoop :: "string \<Rightarrow> string \<Rightarrow> nat \<Rightarrow> error + nat" where
  "parseUintLoop s0 [] n = Inr n"
| "parseUintLoop s0 (c # s) n =
     (if \<not> isDigit c then Inl (NumError s0 ''invalid syntax'')
      else if 2 ^ 64 \<le> n * 10 + (byte c - 48) then Inl (NumError s0 ''value out of range'')
      else parseUintLoop s0 s (n * 10 + (byte c - 48)))"

definition strconv_ParseInt :: "string \<Rightarrow> error + int" where
  "strconv_ParseInt s =
     (case s of
        [] \<Rightarrow> Inl (NumError s ''invalid syntax'')
      | c # r \<Rightarrow>
          let neg = (c = CHR ''-'');
              s1 = (if c = CHR ''+'' \<or> c = CHR ''-'' then r else s)
          in if s1 = [] then Inl (NumError s ''invalid syntax'')
             else (case parseUintLoop s s1 0 of
                     Inl err \<Rightarrow> Inl err
                   | Inr un \<Rightarrow>
                       if \<not> neg \<and> 2 ^ 63 \<le> un then Inl (NumError s ''value out of range'')
                       else if neg \<and> 2 ^ 63 < un then Inl (NumError s ''value out of range'')
                       else Inr (if neg then - int un else int un)))"

text \<open>
  A decimal integer string, for the statements about the timestamp field: decimal
  digits, at least one, after an optional sign. The empty string, which is what the
  decoder leaves when the field is absent, is not one.
\<close>

definition decimalIntegerString :: "string \<Rightarrow> bool" where
  "decimalIntegerString s =
     (let ds = (case s of [] \<Rightarrow> [] | c # r \<Rightarrow> if c = CHR ''+'' \<or> c = CHR ''-'' then r else s)
      in ds \<noteq> [] \<and> list_all isDigit ds)"

text \<open>
  \<open>time.Unix(sec, 0)\<close> is the instant \<open>sec\<close> seconds after the Unix epoch, in the local
  zone. \<open>IsZero\<close> holds for the first instant of year 1 (UTC) only.
\<close>

definition time_Unix :: "world \<Rightarrow> int \<Rightarrow> Time" where
  "time_Unix w s = \<lparr>unixSec = s, nsec = 0, zoneOffset = localOffset w s\<rparr>"

definition IsZero :: "Time \<Rightarrow> bool" where
  "IsZero t = (unixSec t = - 62135596800 \<and> nsec t = 0)"

text \<open>
  The calendar date of a day number (days since 1970-01-01) in the proleptic Gregorian
  calendar, and the fields of a \<open>Time\<close> as its zone shows them. Go computes them from
  the seconds since the first day of the year -292277022399, as an unsigned 64-bit
  number: \<open>calendarSeconds\<close> is that number, counted from the Unix epoch again.
\<close>

definition civilFromDays :: "int \<Rightarrow> int \<times> int \<times> int" where
  "civilFromDays days =
     (let z = days + 719468;
          era = z div 146097;
          doe = z - era * 146097;
          yoe = (doe - doe div 1460 + doe div 36524 - doe div 146096) div 365;
          doy = doe - (365 * yoe + yoe div 4 - yoe div 100);
          mp = (5 * doy + 2) div 153;
          d = doy - (153 * mp + 2) div 5 + 1;
          m = (if mp < 10 then mp + 3 else mp - 9)
      in (yoe + era * 400 + (if m \<le> 2 then 1 else 0), m, d))"

definition calendarSeconds :: "Time \<Rightarrow> int" where
  "calendarSeconds t =
     (unixSec t + zoneOffset t + 9223372028715321600) mod 2 ^ 64 - 9223372028715321600"

definition Year :: "Time \<Rightarrow> int" where
  "Year t = fst (civilFromDays (calendarSeconds t div 86400))"

definition Month :: "Time \<Rightarrow> int" where
  "Month t = fst (snd (civilFromDays (calendarSeconds t div 86400)))"

definition Day :: "Time \<Rightarrow> int" where
  "Day t = snd (snd (civilFromDays (calendarSeconds t div 86400)))"

definition padded :: "nat \<Rightarrow> int \<Rightarrow> string" where
  "padded width i = replicate (width - length (decimal (nat \<bar>i\<bar>))) (CHR ''0'') @ decimal (nat \<bar>i\<bar>)"

text \<open>\<open>fmt.Sprintf("%04d", i)\<close> and \<open>"%02d"\<close>: the sign counts for the width.\<close>

definition fmt_0d :: "nat \<Rightarrow> int \<Rightarrow> string" where
  "fmt_0d width i = (if i < 0 then ''-'' @ padded (width - 1) i else padded width i)"

text \<open>\<open>date.Format("2006:01:02 15:04:05")\<close>.\<close>

definition time_Format :: "Time \<Rightarrow> string" where
  "time_Format t =
     (let secs = calendarSeconds t mod 86400
      in (if Year t < 0 then ''-'' else []) @ padded 4 (Year t) @ '':'' @ padded 2 (Month t) @ '':'' @
         padded 2 (Day t) @ '' '' @ padded 2 (secs div 3600) @ '':'' @
         padded 2 ((secs mod 3600) div 60) @ '':'' @ padded 2 (secs mod 60))"

text \<open>\<open>parseSidecarDate\<close> (main.go, 542-559).\<close>

definition parseSidecarDate :: "world \<Rightarrow> path \<Rightarrow> error + Time" where
  "parseSidecarDate w sidecarPath =
     (case ReadFile w sidecarPath of
        Inl err \<Rightarrow> Inl err
      | Inr data \<Rightarrow>
          (case unmarshalSidecarData data of
             Inl err \<Rightarrow> Inl err
           | Inr sidecar \<Rightarrow>
               (case strconv_ParseInt (Timestamp (PhotoTakenTime sidecar)) of
                  Inl err \<Rightarrow> Inl err
                | Inr timestamp \<Rightarrow> Inr (time_Unix w timestamp))))"

text \<open>
  \<open>parseExifDate\<close> (main.go, 561-577): the first of the four layouts that \<open>time.Parse\<close>
  accepts gives the date.
\<close>

fun parseFormats :: "world \<Rightarrow> string list \<Rightarrow> string \<Rightarrow> Time option" where
  "parseFormats w [] dateStr = None"
| "parseFormats w (format # formats) dateStr =
     (case time_Parse w format dateStr of
        Inr date \<Rightarrow> Some date
      | Inl err \<Rightarrow> parseFormats w formats dateStr)"

definition parseExifDate :: "world \<Rightarrow> string \<Rightarrow> error + Time" where
  "parseExifDate w dateStr =
     (case parseFormats w
             [''2006:01:02 15:04:05'', ''2006-01-02T15:04:05Z'', ''2006-01-02T15:04:05-07:00'',
              ''2006-01-02 15:04:05''] dateStr of
        Some date \<Rightarrow> Inr date
      | None \<Rightarrow> Inl (ErrorNew (''unable to parse date: '' @ dateStr)))"

section \<open>Reading the metadata\<close>

text \<open>
  \<open>strings.TrimSpace\<close> removes the white space runes (\<open>unicode.IsSpace\<close>) at both
  ends of a text. \<open>spaceEncodings\<close> lists the UTF-8 encodings of these runes: tab,
  newline, vertical tab, form feed, carriage return, space, U+0085, U+00A0, U+1680,
  U+2000 to U+200A, U+2028, U+2029, U+202F, U+205F and U+3000. Reading forwards or
  backwards (\<open>DecodeLastRune\<close>), Go finds such a rune at an end of the text exactly when
  the text begins or ends with its encoding.
\<close>

definition spaceEncodings :: "string list" where
  "spaceEncodings =
     [[CHR 0x09], [CHR 0x0A], [CHR 0x0B], [CHR 0x0C], [CHR 0x0D], [CHR 0x20],
      [CHR 0xC2, CHR 0x85], [CHR 0xC2, CHR 0xA0], [CHR 0xE1, CHR 0x9A, CHR 0x80],
      [CHR 0xE2, CHR 0x80, CHR 0x80], [CHR 0xE2, CHR 0x80, CHR 0x81], [CHR 0xE2, CHR 0x80, CHR 0x82],
      [CHR 0xE2, CHR 0x80, CHR 0x83], [CHR 0xE2, CHR 0x80, CHR 0x84], [CHR 0xE2, CHR 0x80, CHR 0x85],
      [CHR 0xE2, CHR 0x80, CHR 0x86], [CHR 0xE2, CHR 0x80, CHR 0x87], [CHR 0xE2, CHR 0x80, CHR 0x88],
      [CHR 0xE2, CHR 0x80, CHR 0x89], [CHR 0xE2, CHR 0x80, CHR 0x8A], [CHR 0xE2, CHR 0x80, CHR 0xA8],
      [CHR 0xE2, CHR 0x80, CHR 0xA9], [CHR 0xE2, CHR 0x80, CHR 0xAF], [CHR 0xE2, CHR 0x81, CHR 0x9F],
      [CHR 0xE3, CHR 0x80, CHR 0x80]]"

lemma spaceEncodings_find: "find P spaceEncodings = Some e \<Longrightarrow> e \<noteq> [] \<and> P e"
proof -
  assume a: "find P spaceEncodings = Some e"
  then have "e \<in> set spaceEncodings" and p: "P e" by (auto simp: find_Some_iff)
  then have "e \<noteq> []" by (auto simp: spaceEncodings_def)
  with p show ?thesis by simp
qed

function trimLeft :: "string \<Rightarrow> string" where
  "trimLeft s =
     (case find (\<lambda>e. prefix e s) spaceEncodings of
        Some e \<Rightarrow> trimLeft (drop (length e) s)
      | None \<Rightarrow> s)"
  by pat_completeness auto
termination
proof (relation "measure length")
  show "wf (measure length)" by simp
next
  fix s :: string and e
  assume "find (\<lambda>e. prefix e s) spaceEncodings = Some e"
  from spaceEncodings_find[OF this] have "e \<noteq> []" "prefix e s" by simp_all
  then show "(drop (length e) s, s) \<in> measure length" by (auto simp: prefix_def)
qed

function trimRight :: "string \<Rightarrow> string" where
  "trimRight s =
     (case find (\<lambda>e. suffix e s) spaceEncodings of
        Some e \<Rightarrow> trimRight (take (length s - length e) s)
      | None \<Rightarrow> s)"
  by pat_completeness auto
termination
proof (relation "measure length")
  show "wf (measure length)" by simp
next
  fix s :: string and e
  assume "find (\<lambda>e. suffix e s) spaceEncodings = Some e"
  from spaceEncodings_find[OF this] have "e \<noteq> []" "suffix e s" by simp_all
  then show "(take (length s - length e) s, s) \<in> measure length" by (auto simp: suffix_def)
qed

declare trimLeft.simps [simp del] trimRight.simps [simp del]

definition strings_TrimSpace :: "string \<Rightarrow> string" where
  "strings_TrimSpace s = trimRight (trimLeft s)"

text \<open>
  \<open>GetMetadata\<close> (main.go, 746-794). The loop collects the lines up to the \<open>{ready}\<close>
  line, each with a newline after it; the flag tells whether the loop ended at
  \<open>{ready}\<close> or because \<open>Scan\<close> returned false.
\<close>

fun readUntilReady :: "string list \<Rightarrow> string \<Rightarrow> string \<times> string list \<times> bool" where
  "readUntilReady [] output = (output, [], False)"
| "readUntilReady (line # rest) output =
     (if line = ''{ready}'' then (output, rest, True)
      else readUntilReady rest (output @ line @ [CHR 0x0A]))"

definition stringTags :: "(string \<rightharpoonup> json) \<Rightarrow> (string \<rightharpoonup> string)" where
  "stringTags m = (\<lambda>key. case m key of Some (JString str) \<Rightarrow> Some str | _ \<Rightarrow> None)"

definition GetMetadata ::
  "ExifToolProcess \<Rightarrow> path \<Rightarrow> (error + (string \<rightharpoonup> string)) \<times> ExifToolProcess" where
  "GetMetadata etp filePath =
     (let command = ''-json'' @ [CHR 0x0A] @ ''-dateFormat'' @ [CHR 0x0A] @ ''%Y:%m:%d %H:%M:%S'' @
                    [CHR 0x0A] @ filePath @ [CHR 0x0A] @ ''-execute'' @ [CHR 0x0A]
      in case stdin_Write etp command of
           (Some err, etp1) \<Rightarrow> (Inl (Errorf ''failed to write to exiftool stdin: '' err), etp1)
         | (None, etp1) \<Rightarrow>
             (case readUntilReady (pending etp1) [] of
                (output, rest, ready) \<Rightarrow>
                  let etp2 = etp1\<lparr>pending := rest\<rparr>
                  in case (if ready then None else scanFault etp1) of
                       Some err \<Rightarrow> (Inl (Errorf ''failed to read exiftool output: '' err), etp2)
                     | None \<Rightarrow>
                         let outputStr = strings_TrimSpace output
                         in if outputStr = [] then (Inr Map.empty, etp2)
                            else (case unmarshalExifData outputStr of
                                    Inl err \<Rightarrow> (Inl (Errorf ''failed to parse exiftool JSON: '' err), etp2)
                                  | Inr exifData \<Rightarrow>
                                      (case exifData of
                                         [] \<Rightarrow> (Inr Map.empty, etp2)
                                       | first # others \<Rightarrow> (Inr (stringTags first), etp2)))))"

section \<open>Processing one media file\<close>

record Config =
  SourceDir :: string
  OutputDir :: string
  Move :: bool
  DryRun :: bool
  Workers :: int

record Result =
  File :: MediaFile
  Success :: bool
  Action :: string
  Error :: "error option"

definition exifDateTags :: "string list" where
  "exifDateTags = [''DateTimeOriginal'', ''CreationDate'', ''CreateDate'', ''MediaCreateDate'',
                   ''DateTimeCreated'']"

text \<open>The text that \<open>%v\<close> prints for an error (library errors in short).\<close>

fun errorString :: "error \<Rightarrow> string" where
  "errorString (SysError msg) = msg"
| "errorString (ErrorNew msg) = msg"
| "errorString (Errorf pre err) = pre @ errorString err"
| "errorString SyntaxError = ''invalid JSON input''"
| "errorString (UnmarshalTypeError field) = ''json: cannot unmarshal into Go value of type '' @ field"
| "errorString (NumError num reason) = ''strconv.ParseInt: parsing '' @ num @ '': '' @ reason"

text \<open>\<open>filepath.Dir\<close>: the path up to its last separator, cleaned.\<close>

definition filepath_Dir :: "path \<Rightarrow> path" where
  "filepath_Dir p = filepath_Clean (rev (dropWhile (\<lambda>c. c \<noteq> CHR ''/'') (rev p)))"

definition updateExifDate ::
  "Config \<Rightarrow> ExifToolProcess \<Rightarrow> path \<Rightarrow> Time \<Rightarrow> error option \<times> ExifToolProcess" where
  "updateExifDate config exifTool filePath date =
     (if DryRun config then (None, exifTool)
      else UpdateAllDates exifTool filePath (time_Format date))"

definition generateDestinationPath :: "string \<Rightarrow> string \<Rightarrow> Time \<Rightarrow> path" where
  "generateDestinationPath outputDir fileName date =
     filepath_Join [outputDir, ''ALL_PHOTOS'', fmt_0d 4 (Year date), fmt_0d 2 (Month date),
                    fmt_0d 2 (Day date), fileName]"

definition generateAlbumSymlinkPath :: "string \<Rightarrow> string \<Rightarrow> string \<Rightarrow> path" where
  "generateAlbumSymlinkPath outputDir albumName fileName =
     filepath_Join [outputDir, ''ALBUMS'', albumName, fileName]"

definition getAlbumName :: "world \<Rightarrow> path \<Rightarrow> string" where
  "getAlbumName w dir =
     (case ReadFile w (filepath_Join [dir, ''metadata.json'']) of
        Inl err \<Rightarrow> []
      | Inr data \<Rightarrow>
          (case unmarshalAlbumMetadata data of
             Inl err \<Rightarrow> []
           | Inr metadata \<Rightarrow> AlbumMetadata.Title metadata))"

definition createAlbumSymlink :: "world \<Rightarrow> path \<Rightarrow> path \<Rightarrow> error option" where
  "createAlbumSymlink w targetPath symlinkPath =
     (let albumDir = filepath_Dir symlinkPath
      in case MkdirAll w albumDir of
           Some err \<Rightarrow> Some (Errorf ''failed to create album directory: '' err)
         | None \<Rightarrow>
             (case Rel w albumDir targetPath of
                Inl err \<Rightarrow> Some (Errorf ''failed to calculate relative path: '' err)
              | Inr relPath \<Rightarrow>
                  (case (case Lstat w symlinkPath of
                           None \<Rightarrow> Remove w symlinkPath
                         | Some absent \<Rightarrow> None) of
                     Some err \<Rightarrow> Some (Errorf ''failed to remove existing symlink: '' err)
                   | None \<Rightarrow>
                       (case Symlink w relPath symlinkPath of
                          Some err \<Rightarrow> Some (Errorf ''failed to create symlink: '' err)
                        | None \<Rightarrow> None))))"

definition moveFile :: "world \<Rightarrow> path \<Rightarrow> path \<Rightarrow> error option" where
  "moveFile w srcPath destPath =
     (case MkdirAll w (filepath_Dir destPath) of
        Some err \<Rightarrow> Some err
      | None \<Rightarrow> Rename w srcPath destPath)"

text \<open>
  \<open>processMediaFile\<close> (main.go, 296-379), in three parts. \<open>findExifDate\<close> is the loop
  over the date tags: the first tag that is present, not empty and parses.
\<close>

fun findExifDate :: "world \<Rightarrow> (string \<rightharpoonup> string) \<Rightarrow> string list \<Rightarrow> Time option" where
  "findExifDate w exifData [] = None"
| "findExifDate w exifData (tag # tags) =
     (case exifData tag of
        None \<Rightarrow> findExifDate w exifData tags
      | Some dateStr \<Rightarrow>
          if dateStr \<noteq> [] then
            (case parseExifDate w dateStr of
               Inr date \<Rightarrow> Some date
             | Inl err \<Rightarrow> findExifDate w exifData tags)
          else findExifDate w exifData tags)"

text \<open>
  Lines 299 to 340: the creation date with the action so far, or the error of the
  result. Without a date from the tags, \<open>creationDate\<close> comes from the companion.
\<close>

definition resolveDate ::
  "world \<Rightarrow> Config \<Rightarrow> ExifToolProcess \<Rightarrow> MediaFile \<Rightarrow> (error + Time \<times> string) \<times> ExifToolProcess" where
  "resolveDate w config exifTool file =
     (case GetMetadata exifTool (Path file) of
        (Inl err, etp1) \<Rightarrow> (Inl (Errorf ''failed to get EXIF data: '' err), etp1)
      | (Inr exifData, etp1) \<Rightarrow>
          (case findExifDate w exifData exifDateTags of
             Some date \<Rightarrow> (Inr (date, []), etp1)
           | None \<Rightarrow>
               let sidecarPath = findSidecarFile w file
               in if sidecarPath \<noteq> [] then
                    (case parseSidecarDate w sidecarPath of
                       Inr date \<Rightarrow>
                         (case updateExifDate config etp1 (Path file) date of
                            (Some err, etp2) \<Rightarrow> (Inl (Errorf ''failed to update EXIF date: '' err), etp2)
                          | (None, etp2) \<Rightarrow> (Inr (date, ''Updated EXIF from sidecar''), etp2))
                     | Inl err \<Rightarrow> (Inl (Errorf ''failed to parse sidecar date: '' err), etp1))
                  else (Inl (ErrorNew ''no creation date found in EXIF or sidecar''), etp1)))"

text \<open>
  Lines 342 to 371: the move and the album link, which add to the action; only a
  failed move is an error.
\<close>

definition albumStep :: "world \<Rightarrow> Config \<Rightarrow> MediaFile \<Rightarrow> path \<Rightarrow> string \<Rightarrow> string" where
  "albumStep w config file destPath action =
     (let albumName = getAlbumName w (Dir file)
      in if albumName \<noteq> [] then
           (let symlinkPath = generateAlbumSymlinkPath (OutputDir config) albumName (BaseName file)
            in if DryRun config then action @ '' | Would create album symlink: '' @ symlinkPath
               else (case createAlbumSymlink w destPath symlinkPath of
                       Some err \<Rightarrow> action @ '' | Symlink error: '' @ errorString err
                     | None \<Rightarrow> action @ '' | Album symlink created: '' @ symlinkPath))
         else action)"

definition moveStep :: "world \<Rightarrow> Config \<Rightarrow> MediaFile \<Rightarrow> Time \<Rightarrow> string \<Rightarrow> error + string" where
  "moveStep w config file creationDate action =
     (if Move config \<and> \<not> IsZero creationDate then
        (let destPath = generateDestinationPath (OutputDir config) (BaseName file) creationDate
         in if DryRun config
            then Inr (albumStep w config file destPath (action @ '' | Would move to: '' @ destPath))
            else (case moveFile w (Path file) destPath of
                    Some err \<Rightarrow> Inl (Errorf ''failed to move file: '' err)
                  | None \<Rightarrow>
                      Inr (albumStep w config file destPath (action @ '' | Moved to: '' @ destPath))))
      else Inr action)"

definition processMediaFile ::
  "world \<Rightarrow> Config \<Rightarrow> ExifToolProcess \<Rightarrow> MediaFile \<Rightarrow> Result \<times> ExifToolProcess" where
  "processMediaFile w config exifTool file =
     (let result = \<lparr>File = file, Success = False, Action = [], Error = None\<rparr>
      in case resolveDate w config exifTool file of
           (Inl err, etp1) \<Rightarrow> (result\<lparr>Error := Some err\<rparr>, etp1)
         | (Inr (creationDate, action), etp1) \<Rightarrow>
             (case moveStep w config file creationDate action of
                Inl err \<Rightarrow> (result\<lparr>Action := action, Error := Some err\<rparr>, etp1)
              | Inr action' \<Rightarrow>
                  (result\<lparr>Action := (if action' = [] then ''No action needed'' else action'),
                          Success := True\<rparr>, etp1)))"

section \<open>Example values\<close>

text \<open>
  Handles for the concrete cases below: \<open>handle ls\<close> is a healthy subprocess whose output
  is the lines \<open>ls\<close>; \<open>failing msg\<close> is one whose \<open>Close\<close> returns an error.
\<close>

definition handle :: "string list \<Rightarrow> ExifToolProcess" where
  "handle ls = \<lparr>stdin = [], stdinFault = None, pending = ls, scanFault = None,
                exit = Exits None, closeCalls = 0\<rparr>"

definition failing :: "string \<Rightarrow> ExifToolProcess" where
  "failing msg = \<lparr>stdin = [], stdinFault = None, pending = [], scanFault = None,
                  exit = Exits (Some (SysError msg)), closeCalls = 0\<rparr>"

text \<open>
  Directories for the concrete cases below. \<open>takeoutWorld names\<close> is a directory with the
  files \<open>names\<close>, in this order (\<open>os.ReadDir\<close> sorts by name): every file whose name
  ends in \<open>.json\<close> holds the companion content of the repository's tests, every other
  file holds \<open>test\<close>. The other calls succeed, no link exists yet, no text parses as a
  date and the local zone is UTC.
\<close>

definition sidecarContent :: "string \<Rightarrow> string" where
  "sidecarContent title = ''{'' @ [CHR 0x22] @ ''title'' @ [CHR 0x22] @ '': '' @ [CHR 0x22] @ title @ [CHR 0x22] @ '', '' @ [CHR 0x22] @ ''photoTakenTime'' @ [CHR 0x22] @ '': {'' @ [CHR 0x22] @ ''timestamp'' @ [CHR 0x22] @ '': '' @ [CHR 0x22] @ ''1672531200'' @ [CHR 0x22] @ ''}}''"

definition takeoutWorld :: "string list \<Rightarrow> world" where
  "takeoutWorld names =
     \<lparr>ReadDir = (\<lambda>d. Inr (map (\<lambda>n. \<lparr>Name = n, IsDir = False\<rparr>) names)),
      ReadFile = (\<lambda>p. if suffix ''.json'' p then Inr (sidecarContent ''test.jpg'') else Inr ''test''),
      MkdirAll = (\<lambda>p. None),
      Rename = (\<lambda>p q. None),
      Lstat = (\<lambda>p. Some (SysError ''no such file or directory'')),
      Remove = (\<lambda>p. None),
      Symlink = (\<lambda>p q. None),
      Rel = (\<lambda>p q. Inr q),
      time_Parse = (\<lambda>layout text. Inl (SysError ''cannot parse'')),
      localOffset = (\<lambda>t. 0)\<rparr>"

definition testFiles :: "string list" where
  "testFiles = [''IMG_123.jpg'', ''IMG_123.jpg.json'', ''IMG_456(1).jpg'',
                ''IMG_456.jpg.supplemental-metadata(1).json'', ''blank.jpg'', ''blank.jpg.su.json'']"

definition truncatedFiles :: "string list" where
  "truncatedFiles = [''BonannoJohn.json'',
                     ''BonannoJohn1959VacavilleCalifWithEvaAndDelgado.json'',
                     ''BonannoJohn1959VacavilleCalifWithEvaAndDelgadoK.jpg'']"

definition truncatedMedia :: MediaFile where
  "truncatedMedia = \<lparr>Path = ''/takeout/album/BonannoJohn1959VacavilleCalifWithEvaAndDelgadoK.jpg'',
                      BaseName = ''BonannoJohn1959VacavilleCalifWithEvaAndDelgadoK.jpg'',
                      Dir = ''/takeout/album''\<rparr>"

definition literalParenFiles :: "string list" where
  "literalParenFiles = [''3x (1).jpg'', ''3x (1).jpg.supplemental-metadata.json'']"

text \<open>
  A directory where a second validated file, earlier in the listing, also fits the exact
  pattern of \<open>IMG_456(1).jpg\<close>, and another one that of \<open>blank.jpg\<close>.
\<close>

definition rivalFiles :: "string list" where
  "rivalFiles = [''IMG_456(1).jpg'', ''IMG_456.jpg(1).json'',
                 ''IMG_456.jpg.supplemental-metadata(1).json'',
                 ''blank.jpg'', ''blank.jpg.json'', ''blank.jpg.su.json'']"

text \<open>\<open>sidecarWorld content\<close> is a file system where every file holds \<open>content\<close>.\<close>

definition sidecarWorld :: "string \<Rightarrow> world" where
  "sidecarWorld content = (takeoutWorld [])\<lparr>ReadFile := (\<lambda>p. Inr content)\<rparr>"

text \<open>
  \<open>datedWorld\<close> is a file system like \<open>takeoutWorld []\<close> where \<open>time.Parse\<close> reads the
  text \<open>2023:01:01 00:00:00\<close> in the first layout of \<open>parseExifDate\<close>; \<open>keepConfig\<close> asks
  for no move.
\<close>

definition datedWorld :: world where
  "datedWorld =
     (takeoutWorld [])\<lparr>time_Parse :=
        (\<lambda>layout text.
           if layout = ''2006:01:02 15:04:05'' \<and> text = ''2023:01:01 00:00:00''
           then Inr \<lparr>unixSec = 1672531200, nsec = 0, zoneOffset = 0\<rparr>
           else Inl (SysError ''cannot parse''))\<rparr>"

definition keepConfig :: Config where
  "keepConfig = \<lparr>SourceDir = ''/takeout'', OutputDir = ''/out'', Move = False, DryRun = False,
                  Workers = 1\<rparr>"

section \<open>Properties of the content validation\<close>

lemma strings_Contains_iff:
  "strings_Contains s substr \<longleftrightarrow> (\<exists>a b. s = a @ substr @ b)"
proof (induction s)
  case Nil
  then show ?case by auto
next
  case (Cons c s)
  show ?case
  proof
    assume "strings_Contains (c # s) substr"
    then consider "prefix substr (c # s)" | "strings_Contains s substr" by auto
    then show "\<exists>a b. c # s = a @ substr @ b"
    proof cases
      case 1
      then obtain b where "c # s = substr @ b" by (auto simp: prefix_def)
      then have "c # s = [] @ substr @ b" by simp
      then show ?thesis by blast
    next
      case 2
      with Cons.IH obtain a b where "s = a @ substr @ b" by blast
      then have "c # s = (c # a) @ substr @ b" by simp
      then show ?thesis by blast
    qed
  next
    assume "\<exists>a b. c # s = a @ substr @ b"
    then obtain a b where ab: "c # s = a @ substr @ b" by blast
    show "strings_Contains (c # s) substr"
    proof (cases a)
      case Nil
      with ab have "prefix substr (c # s)" by (simp add: prefix_def)
      then show ?thesis by simp
    next
      case (Cons x a')
      with ab have "s = a' @ substr @ b" by simp
      with Cons.IH have "strings_Contains s substr" by blast
      then show ?thesis by simp
    qed
  qed
qed

text \<open>
  C10. A candidate is accepted exactly when it can be read and its content has
  \<open>photoTakenTime\<close> and \<open>timestamp\<close> as substrings, and either has \<open>title\<close> as a
  substring or is shorter than 1000 bytes (Go's \<open>len\<close> counts bytes). So content under
  1000 bytes needs no title, and a file that cannot be read is rejected.
\<close>

theorem isGooglePhotosSidecar_iff:
  "isGooglePhotosSidecar w p \<longleftrightarrow>
     (\<exists>content. ReadFile w p = Inr content \<and>
        (\<exists>a b. content = a @ ''photoTakenTime'' @ b) \<and>
        (\<exists>a b. content = a @ ''timestamp'' @ b) \<and>
        ((\<exists>a b. content = a @ ''title'' @ b) \<or> length content < 1000))"
  by (cases "ReadFile w p") (simp_all add: isGooglePhotosSidecar_def strings_Contains_iff)

section \<open>Properties of the worker pool\<close>

lemma closeLoop_result:
  "fst (closeLoop i ps lastErr lg) =
     (if List.map_filter (\<lambda>p. fst (ExifToolProcess_Close p)) ps = [] then lastErr
      else Some (last (List.map_filter (\<lambda>p. fst (ExifToolProcess_Close p)) ps)))"
proof (induction ps arbitrary: i lastErr lg)
  case Nil
  then show ?case by (simp add: List.map_filter_simps)
next
  case (Cons p ps)
  show ?case
  proof (cases "ExifToolProcess_Close p")
    case (Pair r p')
    show ?thesis
    proof (cases r)
      case None
      with Pair Cons.IH[of "i + 1" lastErr lg] show ?thesis
        by (auto simp: List.map_filter_simps split: prod.splits)
    next
      case (Some e)
      with Pair Cons.IH[of "i + 1" "Some e" "lg @ [(i, e)]"] show ?thesis
        by (auto simp: List.map_filter_simps split: prod.splits)
    qed
  qed
qed

lemma closeLoop_handles:
  "fst (snd (closeLoop i ps lastErr lg)) = map (\<lambda>p. snd (ExifToolProcess_Close p)) ps"
proof (induction ps arbitrary: i lastErr lg)
  case Nil
  then show ?case by simp
next
  case (Cons p ps)
  show ?case
  proof (cases "ExifToolProcess_Close p")
    case (Pair r p')
    show ?thesis
    proof (cases r)
      case None
      with Pair Cons.IH[of "i + 1" lastErr lg] show ?thesis
        by (auto split: prod.splits)
    next
      case (Some e)
      with Pair Cons.IH[of "i + 1" "Some e" "lg @ [(i, e)]"] show ?thesis
        by (auto split: prod.splits)
    qed
  qed
qed

lemma Close_closeCalls: "closeCalls (snd (ExifToolProcess_Close p)) = closeCalls p + 1"
  by (simp add: ExifToolProcess_Close_def stdin_Write_def Let_def
      split: exit_behaviour.splits option.splits)

text \<open>
  C3, as the code has it. \<open>ExifToolManager.Close\<close> runs \<open>Close\<close> on every handle of the
  pool, whatever the earlier calls returned: the pool it leaves holds each handle as
  its own \<open>Close\<close> left it, with one more close call counted. The error it returns is
  the one of the last handle whose \<open>Close\<close> failed (\<open>lastErr\<close> is overwritten by every
  failure), and nil when no \<open>Close\<close> failed.
\<close>

theorem closeAll_last_error:
  "fst (ExifToolManager_Close etm) =
     (if List.map_filter (\<lambda>p. fst (ExifToolProcess_Close p)) (processes etm) = [] then None
      else Some (last (List.map_filter (\<lambda>p. fst (ExifToolProcess_Close p)) (processes etm))))
   \<and> processes (fst (snd (ExifToolManager_Close etm))) =
       map (\<lambda>p. snd (ExifToolProcess_Close p)) (processes etm)
   \<and> map closeCalls (processes (fst (snd (ExifToolManager_Close etm)))) =
       map (\<lambda>p. closeCalls p + 1) (processes etm)"
proof -
  obtain r ps lg where c: "closeLoop 0 (processes etm) None [] = (r, ps, lg)"
    by (cases "closeLoop 0 (processes etm) None []") auto
  have r: "r = fst (closeLoop 0 (processes etm) None [])" using c by simp
  have ps: "ps = fst (snd (closeLoop 0 (processes etm) None []))" using c by simp
  show ?thesis
    unfolding ExifToolManager_Close_def c
    by (simp add: r ps closeLoop_result closeLoop_handles Close_closeCalls comp_def)
qed

text \<open>
  C3 as the claim states it fails: in a pool of two handles whose closes fail with the
  errors \<open>first\<close> and \<open>second\<close>, in this order, the first error met during the teardown
  is \<open>first\<close> and \<open>ExifToolManager.Close\<close> returns \<open>second\<close>.
\<close>

theorem closeAll_first_error_counterexample:
  "fst (ExifToolProcess_Close (failing ''first'')) = Some (SysError ''first'') \<and>
   fst (ExifToolManager_Close \<lparr>processes = [failing ''first'', failing ''second'']\<rparr>) =
     Some (SysError ''second'') \<and>
   fst (ExifToolManager_Close \<lparr>processes = [failing ''first'', failing ''second'']\<rparr>) \<noteq>
     fst (ExifToolProcess_Close (failing ''first''))"
  by (simp add: ExifToolManager_Close_def ExifToolProcess_Close_def stdin_Write_def failing_def Let_def)

lemma startLoop_failure:
  "length ps < n \<Longrightarrow>
   (\<forall>j<length ps. startExifToolProcess (spawns (i + j)) = Inr (ps ! j)) \<Longrightarrow>
   startExifToolProcess (spawns (i + length ps)) = Inl err \<Longrightarrow>
   startLoop spawns i n created =
     (Inl (Errorf (''failed to start ExifTool process '' @ fmt_d (int (i + length ps)) @ '': '') err),
      map (\<lambda>p. snd (ExifToolProcess_Close p)) (created @ ps))"
proof (induction ps arbitrary: i n created)
  case Nil
  then obtain m where n: "n = Suc m" by (cases n) auto
  from Nil show ?case by (simp add: n)
next
  case (Cons p ps)
  then obtain m where n: "n = Suc m" by (cases n) auto
  from Cons.prems(2) have p: "startExifToolProcess (spawns i) = Inr p" by force
  have rest: "\<forall>j<length ps. startExifToolProcess (spawns (i + 1 + j)) = Inr (ps ! j)"
  proof (intro allI impI)
    fix j assume "j < length ps"
    then have "Suc j < length (p # ps)" by simp
    with Cons.prems(2) have "startExifToolProcess (spawns (i + Suc j)) = Inr ((p # ps) ! Suc j)"
      by blast
    then show "startExifToolProcess (spawns (i + 1 + j)) = Inr (ps ! j)" by simp
  qed
  have fail: "startExifToolProcess (spawns (i + 1 + length ps)) = Inl err"
    using Cons.prems(3) by simp
  have len: "length ps < m" using Cons.prems(1) n by simp
  from Cons.IH[OF len rest fail, of "created @ [p]"] show ?case
    by (simp add: n p)
qed

lemma startLoop_success:
  "startLoop spawns i n created = (Inr etm, closed) \<Longrightarrow>
   closed = [] \<and> length (processes etm) = length created + n \<and>
   take (length created) (processes etm) = created \<and>
   (\<forall>j<n. startExifToolProcess (spawns (i + j)) = Inr (processes etm ! (length created + j)))"
proof (induction n arbitrary: i created)
  case 0
  then show ?case by auto
next
  case (Suc n)
  show ?case
  proof (cases "startExifToolProcess (spawns i)")
    case (Inl e)
    with Suc.prems show ?thesis by simp
  next
    case (Inr p)
    with Suc.prems have "startLoop spawns (i + 1) n (created @ [p]) = (Inr etm, closed)" by simp
    from Suc.IH[OF this] have
      c: "closed = []" and
      l: "length (processes etm) = length (created @ [p]) + n" and
      t: "take (length (created @ [p])) (processes etm) = created @ [p]" and
      a: "\<forall>j<n. startExifToolProcess (spawns (i + 1 + j)) =
            Inr (processes etm ! (length (created @ [p]) + j))"
      by blast+
    have t1: "take (length created) (processes etm) = created"
    proof -
      have "take (length created) (take (length (created @ [p])) (processes etm)) =
            take (length created) (created @ [p])"
        using t by simp
      then show ?thesis by (simp add: min_def)
    qed
    have p_at: "processes etm ! length created = p"
    proof -
      have "(take (length (created @ [p])) (processes etm)) ! length created =
            (created @ [p]) ! length created"
        using t by simp
      then show ?thesis by simp
    qed
    have all: "\<forall>j<Suc n. startExifToolProcess (spawns (i + j)) =
                 Inr (processes etm ! (length created + j))"
    proof (intro allI impI)
      fix j assume j: "j < Suc n"
      show "startExifToolProcess (spawns (i + j)) = Inr (processes etm ! (length created + j))"
      proof (cases j)
        case 0
        then show ?thesis using Inr p_at by simp
      next
        case (Suc j')
        with j have "j' < n" by simp
        with a have "startExifToolProcess (spawns (i + 1 + j')) =
                       Inr (processes etm ! (length (created @ [p]) + j'))"
          by blast
        then show ?thesis using Suc by simp
      qed
    qed
    from c l t1 all show ?thesis by simp
  qed
qed

text \<open>
  C6. Let \<open>exiftool\<close> be found, and let the starts of the handles \<open>ps\<close> succeed, in the
  iterations \<open>0\<close> to \<open>length ps - 1\<close>, and the next start fail with \<open>err\<close>, before
  \<open>workerCount\<close> handles were made (in the claim's count the failing handle is the
  \<open>k\<close>-th for \<open>k = length ps + 1\<close>). Then the constructor returns the failure, with the
  index of the failed start and \<open>err\<close>, and no pool; and it has run \<open>Close\<close> on each of
  the \<open>length ps\<close> handles made before. Whenever the constructor returns a pool, the pool
  has \<open>workerCount\<close> handles, each the handle that the start of its iteration made, and
  the constructor has closed none.
\<close>

theorem NewExifToolManager_rollback:
  "(lookPath = Inr exe \<and> int (length ps) < workerCount \<and>
    (\<forall>j<length ps. startExifToolProcess (spawns j) = Inr (ps ! j)) \<and>
    startExifToolProcess (spawns (length ps)) = Inl err \<longrightarrow>
      NewExifToolManager lookPath spawns workerCount =
        Returns (Inl (Errorf (''failed to start ExifTool process '' @ fmt_d (int (length ps)) @ '': '') err),
                 map (\<lambda>p. snd (ExifToolProcess_Close p)) ps)) \<and>
   (NewExifToolManager lookPath spawns workerCount = Returns (Inr etm, closed) \<longrightarrow>
      closed = [] \<and> int (length (processes etm)) = workerCount \<and>
      (\<forall>j<length (processes etm). startExifToolProcess (spawns j) = Inr (processes etm ! j)))"
proof (rule conjI; rule impI)
  assume h: "lookPath = Inr exe \<and> int (length ps) < workerCount \<and>
    (\<forall>j<length ps. startExifToolProcess (spawns j) = Inr (ps ! j)) \<and>
    startExifToolProcess (spawns (length ps)) = Inl err"
  then have len: "length ps < nat workerCount" and nonneg: "\<not> workerCount < 0" by auto
  from h have a: "\<forall>j<length ps. startExifToolProcess (spawns (0 + j)) = Inr (ps ! j)" by simp
  from h have f: "startExifToolProcess (spawns (0 + length ps)) = Inl err" by simp
  from startLoop_failure[OF len a f, of "[]"] h nonneg
  show "NewExifToolManager lookPath spawns workerCount =
        Returns (Inl (Errorf (''failed to start ExifTool process '' @ fmt_d (int (length ps)) @ '': '') err),
                 map (\<lambda>p. snd (ExifToolProcess_Close p)) ps)"
    by (simp add: NewExifToolManager_def)
next
  assume r: "NewExifToolManager lookPath spawns workerCount = Returns (Inr etm, closed)"
  then have nonneg: "\<not> workerCount < 0" and
      s: "startLoop spawns 0 (nat workerCount) [] = (Inr etm, closed)"
    by (auto simp: NewExifToolManager_def split: sum.splits if_splits)
  from startLoop_success[OF s] nonneg
  show "closed = [] \<and> int (length (processes etm)) = workerCount \<and>
      (\<forall>j<length (processes etm). startExifToolProcess (spawns j) = Inr (processes etm ! j))"
    by simp
qed

theorem NewExifToolManager_rollback_witness:
  "NewExifToolManager (Inr ''/usr/bin/exiftool'')
       (\<lambda>i. if i < 2 then Started (handle []) else StartFails (SysError ''fork failed'')) 3 =
     Returns (Inl (Errorf (''failed to start ExifTool process '' @ fmt_d (int (length [handle [], handle []])) @ '': '')
                     (Errorf ''failed to start exiftool: '' (SysError ''fork failed''))),
              map (\<lambda>p. snd (ExifToolProcess_Close p)) [handle [], handle []]) \<and>
   int (length (processes \<lparr>processes = [handle [], handle []]\<rparr>)) = 2"
proof (rule conjI)
  let ?sp = "\<lambda>i::nat. if i < 2 then Started (handle []) else StartFails (SysError ''fork failed'')"
  have h: "Inr ''/usr/bin/exiftool'' = (Inr ''/usr/bin/exiftool'' :: error + path) \<and>
      int (length [handle [], handle []]) < 3 \<and>
      (\<forall>j<length [handle [], handle []]. startExifToolProcess (?sp j) = Inr ([handle [], handle []] ! j)) \<and>
      startExifToolProcess (?sp (length [handle [], handle []])) =
        Inl (Errorf ''failed to start exiftool: '' (SysError ''fork failed''))"
    by (simp add: nth_Cons split: nat.splits)
  from NewExifToolManager_rollback[of "Inr ''/usr/bin/exiftool''" "''/usr/bin/exiftool''"
      "[handle [], handle []]" 3 ?sp "Errorf ''failed to start exiftool: '' (SysError ''fork failed'')",
      THEN conjunct1, THEN mp, OF h]
  show "NewExifToolManager (Inr ''/usr/bin/exiftool'') ?sp 3 =
     Returns (Inl (Errorf (''failed to start ExifTool process '' @ fmt_d (int (length [handle [], handle []])) @ '': '')
                     (Errorf ''failed to start exiftool: '' (SysError ''fork failed''))),
              map (\<lambda>p. snd (ExifToolProcess_Close p)) [handle [], handle []])" .
next
  let ?ok = "\<lambda>i::nat. Started (handle [])"
  have r: "NewExifToolManager (Inr ''/usr/bin/exiftool'') ?ok 2 =
             Returns (Inr \<lparr>processes = [handle [], handle []]\<rparr>, [])"
    by (simp add: NewExifToolManager_def numeral_2_eq_2)
  from NewExifToolManager_rollback[of "Inr ''/usr/bin/exiftool''" _ _ 2 ?ok _
      "\<lparr>processes = [handle [], handle []]\<rparr>" "[]", THEN conjunct2, THEN mp, OF r]
  show "int (length (processes \<lparr>processes = [handle [], handle []]\<rparr>)) = 2" by blast
qed

section \<open>Reading a text rune by rune\<close>

lemma byte_ascii: "byte c < 0x80 \<longleftrightarrow> \<not> digit7 c"
  by (cases c) (simp add: byte_def)

lemma byte_eq_iff: "byte a = byte b \<longleftrightarrow> a = b"
  by (simp add: byte_def)

lemma byte_newline: "byte c = 10 \<longleftrightarrow> c = CHR 0x0A"
proof -
  have "byte (CHR 0x0A) = 10" by (simp add: byte_def)
  then show ?thesis using byte_eq_iff[of c "CHR 0x0A"] by simp
qed

lemma decodeRune_ascii: "byte c < 0x80 \<Longrightarrow> decodeRune (c # s) = (byte c, 1)"
  by (simp add: decodeRune_def Let_def)

lemma lead2_mod: "194 \<le> (n::nat) \<Longrightarrow> n < 224 \<Longrightarrow> 2 \<le> n mod 32"
proof -
  assume a: "194 \<le> n" "n < 224"
  define k where "k = n - 192"
  from a have k: "n = 6 * 32 + k" "2 \<le> k" "k < 32" by (simp_all add: k_def)
  have "n mod 32 = k" unfolding k(1) using k(3) by (simp only: mod_mult_self3 mod_less)
  with k show ?thesis by simp
qed

lemma second3_mod: "160 \<le> (n::nat) \<Longrightarrow> n \<le> 191 \<Longrightarrow> 32 \<le> n mod 64"
proof -
  assume a: "160 \<le> n" "n \<le> 191"
  define k where "k = n - 128"
  from a have k: "n = 2 * 64 + k" "32 \<le> k" "k < 64" by (simp_all add: k_def)
  have "n mod 64 = k" unfolding k(1) using k(3) by (simp only: mod_mult_self3 mod_less)
  with k show ?thesis by simp
qed

lemma second4_mod: "144 \<le> (n::nat) \<Longrightarrow> n \<le> 191 \<Longrightarrow> 16 \<le> n mod 64"
proof -
  assume a: "144 \<le> n" "n \<le> 191"
  define k where "k = n - 128"
  from a have k: "n = 2 * 64 + k" "16 \<le> k" "k < 64" by (simp_all add: k_def)
  have "n mod 64 = k" unfolding k(1) using k(3) by (simp only: mod_mult_self3 mod_less)
  with k show ?thesis by simp
qed

lemma lead3_mod: "224 < (n::nat) \<Longrightarrow> n < 240 \<Longrightarrow> 1 \<le> n mod 16"
proof -
  assume a: "224 < n" "n < 240"
  define k where "k = n - 224"
  from a have k: "n = 14 * 16 + k" "1 \<le> k" "k < 16" by (simp_all add: k_def)
  have "n mod 16 = k" unfolding k(1) using k(3) by (simp only: mod_mult_self3 mod_less)
  with k show ?thesis by simp
qed

lemma lead4_mod: "240 < (n::nat) \<Longrightarrow> n \<le> 244 \<Longrightarrow> 1 \<le> n mod 8"
proof -
  assume a: "240 < n" "n \<le> 244"
  define k where "k = n - 240"
  from a have k: "n = 30 * 8 + k" "1 \<le> k" "k < 8" by (simp_all add: k_def)
  have "n mod 8 = k" unfolding k(1) using k(3) by (simp only: mod_mult_self3 mod_less)
  with k show ?thesis by simp
qed

lemma decodeRune_low: "fst (decodeRune (c # s)) < 0x80 \<Longrightarrow> byte c < 0x80"
  unfolding decodeRune_def Let_def
  using lead2_mod[of "byte c"] lead3_mod[of "byte c"] lead4_mod[of "byte c"] second3_mod[of "byte (s ! 0)"] second4_mod[of "byte (s ! 0)"]
  by (auto split: if_splits)

lemma decodeRune_snoc:
  "byte c < 0x80 \<Longrightarrow> decodeRune (x # u @ [c]) = decodeRune (x # u)"
proof -
  assume c: "byte c < 0x80"
  consider "u = []" | a where "u = [a]" | a b where "u = [a, b]" | a b d v where "u = a # b # d # v"
    by (cases u rule: list.exhaust; simp; metis list.exhaust)
  then show ?thesis
  proof cases
    case 1
    with c show ?thesis unfolding decodeRune_def Let_def by (auto split: if_splits)
  next
    case 2
    with c show ?thesis unfolding decodeRune_def Let_def by (auto split: if_splits)
  next
    case 3
    with c show ?thesis unfolding decodeRune_def Let_def by (auto split: if_splits)
  next
    case 4
    with c show ?thesis unfolding decodeRune_def Let_def by (auto split: if_splits)
  qed
qed


lemma runeSeq_ascii: "list_all (\<lambda>c. byte c < 0x80) s \<Longrightarrow> runeSeq s = map (\<lambda>c. (byte c, 1)) s"
  by (induction s) (simp_all add: decodeRune_ascii)

lemma runes_ascii: "list_all (\<lambda>c. byte c < 0x80) s \<Longrightarrow> runes s = map byte s"
  by (simp add: runes_def runeSeq_ascii)

lemma utf8_ValidString_ascii: "list_all (\<lambda>c. byte c < 0x80) s \<Longrightarrow> utf8_ValidString s"
  by (auto simp: utf8_ValidString_def runeSeq_ascii list_all_iff)

lemma runes_Nil_iff: "runes s = [] \<longleftrightarrow> s = []"
  by (cases s) (simp_all add: runes_def)

lemma runes_Cons:
  "runes (x # t) = fst (decodeRune (x # t)) # runes (drop (snd (decodeRune (x # t)) - 1) t)"
  by (simp add: runes_def)

lemma runes_ascii_Cons: "byte c < 0x80 \<Longrightarrow> runes (c # s) = byte c # runes s"
  by (simp add: runes_Cons decodeRune_ascii)

lemma runes_snoc:
  "byte c < 0x80 \<Longrightarrow> runes s = rs @ [byte c] \<Longrightarrow> \<exists>s'. s = s' @ [c] \<and> runes s' = rs"
proof (induction s arbitrary: rs rule: runeSeq.induct)
  case 1
  then show ?case by (simp add: runes_def)
next
  case (2 x t)
  let ?k = "snd (decodeRune (x # t))"
  let ?r = "fst (decodeRune (x # t))"
  let ?d = "drop (?k - 1) t"
  have rc: "runes (x # t) = ?r # runes ?d" by (rule runes_Cons)
  show ?case
  proof (cases "?d = []")
    case True
    then have "runes (x # t) = [?r]" using rc by (simp add: runes_def)
    with "2.prems" have rs: "rs = []" and r: "?r = byte c" by (auto simp: Cons_eq_append_conv)
    from r "2.prems"(1) have lo: "byte x < 0x80" using decodeRune_low[of x t] by simp
    then have d: "decodeRune (x # t) = (byte x, 1)" by (rule decodeRune_ascii)
    with True have t: "t = []" by simp
    from d r have "x = c" by (simp add: byte_eq_iff)
    with t rs show ?thesis by (simp add: runes_def)
  next
    case False
    then have ne: "runes ?d \<noteq> []" by (simp add: runes_Nil_iff)
    from "2.prems"(2) rc have eq: "?r # runes ?d = rs @ [byte c]" by simp
    with ne obtain rs' where rs: "rs = ?r # rs'" and tl: "runes ?d = rs' @ [byte c]"
      by (cases rs) auto
    from "2.IH"[OF "2.prems"(1) tl] obtain s'' where s'': "?d = s'' @ [c]" "runes s'' = rs'" by blast
    from False have len: "?k - 1 \<le> length t" by (simp add: not_le) 
    have t: "t = take (?k - 1) t @ s'' @ [c]" using s''(1) by (metis append_take_drop_id)
    let ?u = "take (?k - 1) t @ s''"
    have xt: "x # t = x # ?u @ [c]" using t by simp
    have dec: "decodeRune (x # ?u) = decodeRune (x # t)"
      using decodeRune_snoc[OF "2.prems"(1), of x ?u] xt by simp
    have dr: "drop (?k - 1) ?u = s''" using len by simp
    have "runes (x # ?u) = ?r # rs'"
      by (simp only: runes_Cons[of x ?u] dec dr s''(2))
    with xt rs have "x # t = (x # ?u) @ [c] \<and> runes (x # ?u) = rs" by simp
    then show ?thesis by blast
  qed
qed

lemma runes_append_ascii:
  "list_all (\<lambda>c. byte c < 0x80) a \<Longrightarrow> runes s = rs @ map byte a \<Longrightarrow>
     \<exists>s'. s = s' @ a \<and> runes s' = rs"
proof (induction a arbitrary: s rule: rev_induct)
  case Nil
  then show ?case by simp
next
  case (snoc c a)
  from snoc.prems have c: "byte c < 0x80" and a: "list_all (\<lambda>c. byte c < 0x80) a" by simp_all
  from snoc.prems(2) have "runes s = (rs @ map byte a) @ [byte c]" by simp
  from runes_snoc[OF c this] obtain s1 where s1: "s = s1 @ [c]" "runes s1 = rs @ map byte a" by blast
  from snoc.IH[OF a s1(2)] obtain s' where "s1 = s' @ a" "runes s' = rs" by blast
  with s1 show ?case by auto
qed

section \<open>Properties of the patterns\<close>

lemma rmatch_Lit: "rmatch (Lit l # r) rs \<longleftrightarrow> (\<exists>b. rs = runes l @ b \<and> rmatch r b)"
  by (auto simp: prefix_def)

lemma rmatch_end: "rmatch [Lit l] rs \<longleftrightarrow> rs = runes l"
  by (auto simp: prefix_def)

lemma rmatch_AnyStar:
  "rmatch (AnyStar # r) s \<longleftrightarrow> (\<exists>a b. s = a @ b \<and> 0x0A \<notin> set a \<and> rmatch r b)"
proof (induction s)
  case Nil
  then show ?case by simp
next
  case (Cons c s)
  show ?case
  proof
    assume "rmatch (AnyStar # r) (c # s)"
    then consider "rmatch r (c # s)" | "c \<noteq> 0x0A" "rmatch (AnyStar # r) s" by auto
    then show "\<exists>a b. c # s = a @ b \<and> 0x0A \<notin> set a \<and> rmatch r b"
    proof cases
      case 1
      then have "c # s = [] @ (c # s) \<and> 0x0A \<notin> set ([]::nat list) \<and> rmatch r (c # s)" by simp
      then show ?thesis by blast
    next
      case 2
      with Cons.IH obtain a b where "s = a @ b" "0x0A \<notin> set a" "rmatch r b" by blast
      with 2 have "c # s = (c # a) @ b \<and> 0x0A \<notin> set (c # a) \<and> rmatch r b" by auto
      then show ?thesis by blast
    qed
  next
    assume "\<exists>a b. c # s = a @ b \<and> 0x0A \<notin> set a \<and> rmatch r b"
    then obtain a b where ab: "c # s = a @ b" "0x0A \<notin> set a" "rmatch r b" by blast
    show "rmatch (AnyStar # r) (c # s)"
    proof (cases a)
      case Nil
      with ab have "rmatch r (c # s)" by simp
      then show ?thesis by simp
    next
      case (Cons x a')
      with ab have "s = a' @ b" "0x0A \<notin> set a'" "c \<noteq> 0x0A" by auto
      with ab(3) Cons.IH have "rmatch (AnyStar # r) s" by blast
      with \<open>c \<noteq> 0x0A\<close> show ?thesis by simp
    qed
  qed
qed

lemma rmatch_prefix_pattern:
  "rmatch [Lit p, AnyStar, Lit n, Lit j] rs \<longleftrightarrow>
     (\<exists>mid. rs = runes p @ mid @ runes n @ runes j \<and> 0x0A \<notin> set mid)"
  by (simp only: rmatch_Lit rmatch_AnyStar rmatch_end) auto

text \<open>Matching texts of ASCII characters, character by character.\<close>

lemma prefix_map_byte: "prefix (map byte a) (map byte b) \<longleftrightarrow> prefix a b"
proof (induction a arbitrary: b)
  case Nil
  then show ?case by simp
next
  case (Cons x a)
  then show ?case by (cases b) (auto simp: byte_eq_iff)
qed

lemma MatchString_Nil: "regexp_MatchString [] s \<longleftrightarrow> s = []"
  by (simp add: regexp_MatchString_def runes_Nil_iff)

lemma MatchString_Lit:
  "list_all (\<lambda>c. byte c < 0x80) l \<Longrightarrow> list_all (\<lambda>c. byte c < 0x80) s \<Longrightarrow>
     regexp_MatchString (Lit l # r) s \<longleftrightarrow> prefix l s \<and> regexp_MatchString r (drop (length l) s)"
proof -
  assume l: "list_all (\<lambda>c. byte c < 0x80) l" and s: "list_all (\<lambda>c. byte c < 0x80) s"
  from s have d: "list_all (\<lambda>c. byte c < 0x80) (drop (length l) s)"
    by (auto simp: list_all_iff dest: in_set_dropD)
  show ?thesis
    by (simp add: regexp_MatchString_def runes_ascii[OF l] runes_ascii[OF s] runes_ascii[OF d]
        prefix_map_byte drop_map)
qed

lemma MatchString_AnyStar_Nil: "regexp_MatchString (AnyStar # r) [] \<longleftrightarrow> regexp_MatchString r []"
  by (simp add: regexp_MatchString_def runes_def)

lemma MatchString_AnyStar_Cons:
  "byte c < 0x80 \<Longrightarrow>
     regexp_MatchString (AnyStar # r) (c # s) \<longleftrightarrow>
       regexp_MatchString r (c # s) \<or> (c \<noteq> CHR 0x0A \<and> regexp_MatchString (AnyStar # r) s)"
  by (simp add: regexp_MatchString_def runes_ascii_Cons byte_newline)

lemma MatchString_OptDotAny:
  "regexp_MatchString (OptDotAny # r) s \<longleftrightarrow>
     regexp_MatchString r s \<or> regexp_MatchString (Lit ''.'' # AnyStar # r) s"
  by (simp add: regexp_MatchString_def)

lemmas eval_match = MatchString_Nil MatchString_Lit MatchString_AnyStar_Nil MatchString_AnyStar_Cons
  MatchString_OptDotAny byte_ascii

lemma isDigit_paren: "\<not> isDigit (CHR ''('')"
  by (simp add: isDigit_def)

lemma isDigit_ascii: "isDigit c \<Longrightarrow> byte c < 0x80"
  by (auto simp: isDigit_def byte_def)

lemma takeWhile_stop: "\<forall>c\<in>set xs. P c \<Longrightarrow> \<not> P y \<Longrightarrow> takeWhile P (xs @ y # ys) = xs"
  by (induction xs) auto

lemma dropWhile_stop: "\<forall>c\<in>set xs. P c \<Longrightarrow> \<not> P y \<Longrightarrow> dropWhile P (xs @ y # ys) = y # ys"
  by (induction xs) auto

lemma numberSuffixRegex_iff:
  "numberSuffixRegex s = Some (g, d) \<longleftrightarrow>
     s = g @ ''('' @ d @ '')'' \<and> g \<noteq> [] \<and> CHR 0x0A \<notin> set g \<and> d \<noteq> [] \<and> (\<forall>c\<in>set d. isDigit c)"
proof
  assume a: "numberSuffixRegex s = Some (g, d)"
  then obtain c r where rs: "rev s = c # r" and c: "c = CHR '')''"
    by (auto simp: numberSuffixRegex_def split: list.splits if_splits)
  from a rs c obtain b g' where dw: "dropWhile isDigit r = b # g'" and b: "b = CHR ''(''"
    and tw: "takeWhile isDigit r \<noteq> []" and g': "g' \<noteq> []" "CHR 0x0A \<notin> set g'"
    and gd: "g = rev g'" "d = rev (takeWhile isDigit r)"
    by (auto simp: numberSuffixRegex_def split: list.splits if_splits)
  have "r = takeWhile isDigit r @ dropWhile isDigit r" by simp
  with dw b have "r = rev d @ CHR ''('' # rev g" using gd by simp
  with rs c have "rev s = CHR '')'' # rev d @ CHR ''('' # rev g" by simp
  then have "rev (rev s) = rev (CHR '')'' # rev d @ CHR ''('' # rev g)" by simp
  then have s: "s = g @ ''('' @ d @ '')''" by simp
  have "\<forall>c\<in>set d. isDigit c" using gd(2) by (auto dest: set_takeWhileD)
  with s g' gd tw show "s = g @ ''('' @ d @ '')'' \<and> g \<noteq> [] \<and> CHR 0x0A \<notin> set g \<and> d \<noteq> [] \<and> (\<forall>c\<in>set d. isDigit c)"
    by simp
next
  assume h: "s = g @ ''('' @ d @ '')'' \<and> g \<noteq> [] \<and> CHR 0x0A \<notin> set g \<and> d \<noteq> [] \<and> (\<forall>c\<in>set d. isDigit c)"
  then have rs: "rev s = CHR '')'' # (rev d @ CHR ''('' # rev g)" by simp
  from h have dig: "\<forall>c\<in>set (rev d). isDigit c" by simp
  have tw: "takeWhile isDigit (rev d @ CHR ''('' # rev g) = rev d"
    using dig isDigit_paren by (rule takeWhile_stop)
  have dw: "dropWhile isDigit (rev d @ CHR ''('' # rev g) = CHR ''('' # rev g"
    using dig isDigit_paren by (rule dropWhile_stop)
  from h show "numberSuffixRegex s = Some (g, d)"
    unfolding numberSuffixRegex_def rs by (simp add: tw dw)
qed

lemma splitNumbered_ascii:
  assumes "splitNumbered baseName = (stem, tok)"
  shows "list_all (\<lambda>c. byte c < 0x80) tok"
proof (cases "numberSuffixRegex (strings_TrimSuffix baseName (filepath_Ext baseName))")
  case None
  with assms show ?thesis by (simp add: splitNumbered_def Let_def)
next
  case (Some gd)
  obtain g d where gd: "gd = (g, d)" by (cases gd)
  from Some gd assms have tok: "tok = ''('' @ d @ '')''" by (simp add: splitNumbered_def Let_def)
  from Some gd have "\<forall>c\<in>set d. isDigit c" using numberSuffixRegex_iff by blast
  then have "list_all (\<lambda>c. byte c < 0x80) d" by (auto simp: list_all_iff isDigit_ascii)
  then show ?thesis unfolding tok by (simp add: byte_ascii)
qed

section \<open>Properties of the companion matcher\<close>

lemma strings_TrimSuffix_append: "strings_TrimSuffix (a @ suf) suf = a"
  by (simp add: strings_TrimSuffix_def strings_HasSuffix_def suffix_def)

lemma lengthOk_split:
  "lengthOk stem tok (own @ tok @ ''.json'') \<longleftrightarrow>
     length own \<le> length stem \<and> length stem - length own \<le> length stem div 3"
proof -
  have a: "strings_TrimSuffix (own @ tok @ ''.json'') ''.json'' = own @ tok"
    using strings_TrimSuffix_append[of "own @ tok" "''.json''"] by simp
  have b: "strings_TrimSuffix (own @ tok) tok = own" by (rule strings_TrimSuffix_append)
  have c: "(if tok \<noteq> [] then strings_TrimSuffix (own @ tok) tok else own @ tok) = own"
    using b by simp
  have d: "int (length stem) div 3 = int (length stem div 3)" by (simp add: zdiv_int)
  show ?thesis
    unfolding lengthOk_def a Let_def c d by auto
qed

lemma scanPrefixEntries_Some:
  "scanPrefixEntries w dir stem tok re es = Some p \<Longrightarrow>
     \<exists>e\<in>set es. p = filepath_Join [dir, Name e] \<and> \<not> IsDir e \<and> regexp_MatchString re (Name e) \<and>
        isGooglePhotosSidecar w p \<and> lengthOk stem tok (Name e)"
  by (induction es) (auto split: if_splits)

lemma prefix_pattern_name:
  assumes tok: "list_all (\<lambda>c. byte c < 0x80) tok"
    and m: "regexp_MatchString [Lit p, AnyStar, Lit tok, Lit ''.json''] s"
  shows "\<exists>own. s = own @ tok @ ''.json'' \<and> prefix (runes p) (runes own)"
proof -
  from m obtain mid where mid: "runes s = runes p @ mid @ runes tok @ runes ''.json''"
    unfolding regexp_MatchString_def rmatch_prefix_pattern by blast
  have a: "list_all (\<lambda>c. byte c < 0x80) (tok @ ''.json'')" using tok by (simp add: byte_ascii)
  have "runes tok @ runes ''.json'' = map byte (tok @ ''.json'')"
    using tok by (simp add: runes_ascii byte_ascii)
  with mid have "runes s = (runes p @ mid) @ map byte (tok @ ''.json'')" by simp
  from runes_append_ascii[OF a this] obtain own where
    "s = own @ tok @ ''.json''" "runes own = runes p @ mid" by blast
  then show ?thesis by auto
qed

lemma tryPrefix_Some:
  assumes tok: "list_all (\<lambda>c. byte c < 0x80) tok"
    and t: "tryPrefix w dir es stem tok n = Some p"
  shows "\<exists>e\<in>set es. \<exists>own. p = filepath_Join [dir, Name e] \<and> \<not> IsDir e \<and>
           isGooglePhotosSidecar w p \<and>
           Name e = own @ tok @ ''.json'' \<and> prefix (runes (take (nat n) stem)) (runes own) \<and>
           length own \<le> length stem \<and> length stem - length own \<le> length stem div 3"
proof -
  let ?re = "[Lit (take (nat n) stem), AnyStar, Lit tok, Lit ''.json'']"
  from t have s: "scanPrefixEntries w dir stem tok ?re es = Some p"
    by (auto simp: tryPrefix_def regexp_Compile_def split: if_splits option.splits)
  from scanPrefixEntries_Some[OF s] obtain e where e: "e \<in> set es"
    "p = filepath_Join [dir, Name e]" "\<not> IsDir e" "regexp_MatchString ?re (Name e)"
    "isGooglePhotosSidecar w p" "lengthOk stem tok (Name e)" by blast
  from prefix_pattern_name[OF tok e(4)] obtain own where own: "Name e = own @ tok @ ''.json''"
    "prefix (runes (take (nat n) stem)) (runes own)" by blast
  from e(6) have "length own \<le> length stem \<and> length stem - length own \<le> length stem div 3"
    unfolding own(1) lengthOk_split .
  with e own show ?thesis by blast
qed

lemma prefixLoop_below: "hi < lo \<Longrightarrow> prefixLoop w dir es stem tok lo hi = []"
  by (simp add: prefixLoop.simps)

lemma prefixLoop_as_list:
  "prefixLoop w dir es stem tok (int lo) (int hi) =
     (case List.map_filter (\<lambda>n. tryPrefix w dir es stem tok (int n)) (rev [lo..<Suc hi]) of
        [] \<Rightarrow> [] | p # ps \<Rightarrow> p)"
proof (induction hi)
  case 0
  show ?case
  proof (cases "lo = 0")
    case True
    then show ?thesis
      by (simp add: prefixLoop.simps[of _ _ _ _ _ 0 0] prefixLoop_below List.map_filter_simps
          split: option.splits)
  next
    case False
    then have "rev [lo..<Suc 0] = []" by simp
    with False show ?thesis by (simp add: prefixLoop_below List.map_filter_simps)
  qed
next
  case (Suc hi)
  show ?case
  proof (cases "lo \<le> Suc hi")
    case True
    then have l: "rev [lo..<Suc (Suc hi)] = Suc hi # rev [lo..<Suc hi]" by simp
    have step: "int (Suc hi) - 1 = int hi" by simp
    from True show ?thesis
      unfolding l
      by (subst prefixLoop.simps) (simp add: List.map_filter_simps Suc.IH step split: option.splits)
  next
    case False
    then have "rev [lo..<Suc (Suc hi)] = []" by simp
    with False show ?thesis by (simp add: prefixLoop_below List.map_filter_simps)
  qed
qed

lemma map_filter_hd: "List.map_filter f xs = y # ys \<Longrightarrow> \<exists>x\<in>set xs. f x = Some y"
  by (induction xs) (auto simp: List.map_filter_simps split: option.splits)

text \<open>
  C2. Let \<open>stem\<close> be the media stem (the base name without its extension and without
  its number token \<open>tok\<close>). The fallback returns the first hit of the prefix lengths
  \<open>length stem\<close>, \<open>length stem - 1\<close>, ..., down to \<open>min 10 (length stem)\<close>, tried in
  this order, and the empty path when no length has a hit (the lengths count bytes, and
  a prefix that ends inside a rune has no hit: its pattern does not compile). A path it
  returns is the path of an entry of the listing that is not a directory, passes the
  content validation and is named \<open>own @ tok @ ''.json''\<close>, where \<open>own\<close> (the entry's
  own stem: its name without \<open>.json\<close> and the number token) begins, rune by rune,
  with the first \<open>n\<close> bytes of \<open>stem\<close> for a length \<open>n\<close> of that range, is no longer
  than \<open>stem\<close> and is shorter by at most a third of the length of \<open>stem\<close>. So a file
  outside that bound is never returned.
\<close>

theorem prefixMatching_bound:
  assumes "splitNumbered (BaseName file) = (stem, tok)"
  shows "findSidecarWithPrefixMatching w file entries =
           (case List.map_filter (\<lambda>n. tryPrefix w (Dir file) entries stem tok (int n))
                   (rev [min 10 (length stem)..<Suc (length stem)]) of
              [] \<Rightarrow> [] | p # ps \<Rightarrow> p) \<and>
         (findSidecarWithPrefixMatching w file entries \<noteq> [] \<longrightarrow>
           (\<exists>e\<in>set entries. \<exists>n own.
              findSidecarWithPrefixMatching w file entries = filepath_Join [(Dir file), Name e] \<and>
              \<not> IsDir e \<and> isGooglePhotosSidecar w (filepath_Join [(Dir file), Name e]) \<and>
              min 10 (length stem) \<le> n \<and> n \<le> length stem \<and>
              Name e = own @ tok @ ''.json'' \<and>
              prefix (runes (take n stem)) (runes own) \<and>
              length own \<le> length stem \<and>
              length stem - length own \<le> length stem div 3))"
proof -
  let ?lo = "min 10 (length stem)"
  let ?hits = "List.map_filter (\<lambda>n. tryPrefix w (Dir file) entries stem tok (int n))
                   (rev [?lo..<Suc (length stem)])"
  have tok: "list_all (\<lambda>c. byte c < 0x80) tok" using assms by (rule splitNumbered_ascii)
  have lo: "(if int (length stem) < 10 then int (length stem) else 10) = int ?lo"
    by (simp add: min_def)
  have eq: "findSidecarWithPrefixMatching w file entries = (case ?hits of [] \<Rightarrow> [] | p # ps \<Rightarrow> p)"
    unfolding findSidecarWithPrefixMatching_def assms
    by (simp only: prod.case Let_def lo prefixLoop_as_list)
  have snd: "\<exists>e\<in>set entries. \<exists>n own.
              findSidecarWithPrefixMatching w file entries = filepath_Join [(Dir file), Name e] \<and>
              \<not> IsDir e \<and> isGooglePhotosSidecar w (filepath_Join [(Dir file), Name e]) \<and>
              ?lo \<le> n \<and> n \<le> length stem \<and>
              Name e = own @ tok @ ''.json'' \<and>
              prefix (runes (take n stem)) (runes own) \<and>
              length own \<le> length stem \<and>
              length stem - length own \<le> length stem div 3"
    if ne: "findSidecarWithPrefixMatching w file entries \<noteq> []"
  proof -
    from ne eq obtain p ps where h: "?hits = p # ps" and r: "findSidecarWithPrefixMatching w file entries = p"
      by (cases ?hits) auto
    from map_filter_hd[OF h] obtain n where n: "n \<in> set (rev [?lo..<Suc (length stem)])"
      and t: "tryPrefix w (Dir file) entries stem tok (int n) = Some p" by blast
    from n have range: "?lo \<le> n \<and> n \<le> length stem" by auto
    from tryPrefix_Some[OF tok t] obtain e own where e: "e \<in> set entries"
      "p = filepath_Join [(Dir file), Name e]" "\<not> IsDir e" "isGooglePhotosSidecar w p"
      "Name e = own @ tok @ ''.json''"
      "prefix (runes (take n stem)) (runes own)"
      "length own \<le> length stem"
      "length stem - length own \<le> length stem div 3"
      by auto
    show ?thesis
      apply (rule bexI[OF _ e(1)])
      apply (rule exI[of _ n])
      apply (rule exI[of _ own])
      using e range r by simp
  qed
  from eq snd show ?thesis by blast
qed

lemmas eval_name = filepath_Ext_def strings_TrimSuffix_def strings_HasSuffix_def
      numberSuffixRegex_def isDigit_def suffix_to_prefix Let_def

lemmas eval_path = filepath_Join_def filepath_Clean_def

lemmas eval_compile = regexp_Compile_def utf8_ValidString_ascii

lemma truncated_split:
  "splitNumbered (BaseName truncatedMedia) = (''BonannoJohn1959VacavilleCalifWithEvaAndDelgadoK'', [])"
  by (simp add: truncatedMedia_def splitNumbered_def eval_name)

lemma truncated_result:
  "findSidecarWithPrefixMatching (takeoutWorld truncatedFiles) truncatedMedia
      (map (\<lambda>n. \<lparr>Name = n, IsDir = False\<rparr>) truncatedFiles) =
   ''/takeout/album/BonannoJohn1959VacavilleCalifWithEvaAndDelgado.json''"
  unfolding findSidecarWithPrefixMatching_def truncated_split
  by (simp add: truncatedMedia_def truncatedFiles_def takeoutWorld_def prefixLoop.simps tryPrefix_def
      eval_compile eval_match isGooglePhotosSidecar_def sidecarContent_def
      lengthOk_def strings_TrimSuffix_def strings_HasSuffix_def eval_path suffix_to_prefix Let_def)

theorem prefixMatching_bound_witness:
  "findSidecarWithPrefixMatching (takeoutWorld truncatedFiles) truncatedMedia
      (map (\<lambda>n. \<lparr>Name = n, IsDir = False\<rparr>) truncatedFiles) =
     ''/takeout/album/BonannoJohn1959VacavilleCalifWithEvaAndDelgado.json'' \<and>
   (\<exists>e\<in>set (map (\<lambda>n. \<lparr>Name = n, IsDir = False\<rparr>) truncatedFiles). \<exists>n own.
      findSidecarWithPrefixMatching (takeoutWorld truncatedFiles) truncatedMedia
        (map (\<lambda>n. \<lparr>Name = n, IsDir = False\<rparr>) truncatedFiles) =
        filepath_Join [(Dir truncatedMedia), Name e] \<and>
      \<not> IsDir e \<and>
      isGooglePhotosSidecar (takeoutWorld truncatedFiles) (filepath_Join [(Dir truncatedMedia), Name e]) \<and>
      min 10 (length ''BonannoJohn1959VacavilleCalifWithEvaAndDelgadoK'') \<le> n \<and>
      n \<le> length ''BonannoJohn1959VacavilleCalifWithEvaAndDelgadoK'' \<and>
      Name e = own @ [] @ ''.json'' \<and>
      prefix (runes (take n ''BonannoJohn1959VacavilleCalifWithEvaAndDelgadoK'')) (runes own) \<and>
      length own \<le> length ''BonannoJohn1959VacavilleCalifWithEvaAndDelgadoK'' \<and>
      length ''BonannoJohn1959VacavilleCalifWithEvaAndDelgadoK'' - length own \<le>
        length ''BonannoJohn1959VacavilleCalifWithEvaAndDelgadoK'' div 3)"
proof (rule conjI)
  show r: "findSidecarWithPrefixMatching (takeoutWorld truncatedFiles) truncatedMedia
      (map (\<lambda>n. \<lparr>Name = n, IsDir = False\<rparr>) truncatedFiles) =
     ''/takeout/album/BonannoJohn1959VacavilleCalifWithEvaAndDelgado.json''"
    by (rule truncated_result)
  have ne: "findSidecarWithPrefixMatching (takeoutWorld truncatedFiles) truncatedMedia
      (map (\<lambda>n. \<lparr>Name = n, IsDir = False\<rparr>) truncatedFiles) \<noteq> []"
    unfolding r by simp
  from prefixMatching_bound[OF truncated_split, THEN conjunct2, THEN mp, OF ne]
  show "\<exists>e\<in>set (map (\<lambda>n. \<lparr>Name = n, IsDir = False\<rparr>) truncatedFiles). \<exists>n own.
      findSidecarWithPrefixMatching (takeoutWorld truncatedFiles) truncatedMedia
        (map (\<lambda>n. \<lparr>Name = n, IsDir = False\<rparr>) truncatedFiles) =
        filepath_Join [(Dir truncatedMedia), Name e] \<and>
      \<not> IsDir e \<and>
      isGooglePhotosSidecar (takeoutWorld truncatedFiles) (filepath_Join [(Dir truncatedMedia), Name e]) \<and>
      min 10 (length ''BonannoJohn1959VacavilleCalifWithEvaAndDelgadoK'') \<le> n \<and>
      n \<le> length ''BonannoJohn1959VacavilleCalifWithEvaAndDelgadoK'' \<and>
      Name e = own @ [] @ ''.json'' \<and>
      prefix (runes (take n ''BonannoJohn1959VacavilleCalifWithEvaAndDelgadoK'')) (runes own) \<and>
      length own \<le> length ''BonannoJohn1959VacavilleCalifWithEvaAndDelgadoK'' \<and>
      length ''BonannoJohn1959VacavilleCalifWithEvaAndDelgadoK'' - length own \<le>
        length ''BonannoJohn1959VacavilleCalifWithEvaAndDelgadoK'' div 3" .
qed

lemma literalParen_patterns:
  "sidecarPatterns ''3x (1).jpg'' = [[Lit ''3x .jpg'', OptDotAny, Lit ''(1)'', Lit ''.json'']]"
  by (simp add: sidecarPatterns_def eval_name)

lemma literalParen_split: "splitNumbered ''3x (1).jpg'' = (''3x '', ''(1)'')"
  by (simp add: splitNumbered_def eval_name)

text \<open>
  C1 fails on the code. The directory holds \<open>3x (1).jpg\<close> and
  \<open>3x (1).jpg.supplemental-metadata.json\<close>, the latter with valid companion content.
  The trailing \<open>(1)\<close> is taken for a number token: the exact pattern asks for a name
  that starts with \<open>3x .jpg\<close> and the fallback for one that ends in \<open>(1).json\<close>, the
  companion is neither, and \<open>findSidecarFile\<close> returns the empty path.
\<close>

theorem literal_parenthesis_missed:
  "ReadDir (takeoutWorld literalParenFiles) ''/takeout/album'' =
     Inr [\<lparr>Name = ''3x (1).jpg'', IsDir = False\<rparr>,
          \<lparr>Name = ''3x (1).jpg.supplemental-metadata.json'', IsDir = False\<rparr>] \<and>
   isGooglePhotosSidecar (takeoutWorld literalParenFiles)
     (filepath_Join [''/takeout/album'', ''3x (1).jpg.supplemental-metadata.json'']) \<and>
   findSidecarFile (takeoutWorld literalParenFiles)
     \<lparr>Path = ''/takeout/album/3x (1).jpg'', BaseName = ''3x (1).jpg'', Dir = ''/takeout/album''\<rparr> = []"
proof (intro conjI)
  show "ReadDir (takeoutWorld literalParenFiles) ''/takeout/album'' =
     Inr [\<lparr>Name = ''3x (1).jpg'', IsDir = False\<rparr>,
          \<lparr>Name = ''3x (1).jpg.supplemental-metadata.json'', IsDir = False\<rparr>]"
    by (simp add: takeoutWorld_def literalParenFiles_def)
  show "isGooglePhotosSidecar (takeoutWorld literalParenFiles)
     (filepath_Join [''/takeout/album'', ''3x (1).jpg.supplemental-metadata.json''])"
    by (simp add: isGooglePhotosSidecar_def takeoutWorld_def sidecarContent_def
        eval_path suffix_to_prefix Let_def)
  show "findSidecarFile (takeoutWorld literalParenFiles)
     \<lparr>Path = ''/takeout/album/3x (1).jpg'', BaseName = ''3x (1).jpg'', Dir = ''/takeout/album''\<rparr> = []"
    by (simp add: findSidecarFile_def takeoutWorld_def literalParenFiles_def literalParen_patterns
        literalParen_split eval_compile eval_match
        findSidecarWithPrefixMatching_def prefixLoop.simps tryPrefix_def)
qed

lemma scanEntries_first:
  assumes "\<forall>e\<in>set before. IsDir e \<or> \<not> regexp_MatchString re (Name e) \<or>
             \<not> isGooglePhotosSidecar w (filepath_Join [dir, Name e])"
    and "regexp_MatchString re X"
    and "isGooglePhotosSidecar w (filepath_Join [dir, X])"
  shows "scanEntries w dir re (before @ \<lparr>Name = X, IsDir = False\<rparr> # rest) =
           Some (filepath_Join [dir, X])"
  using assms by (induction before) auto

lemma findSidecarFile_first_match:
  assumes pats: "sidecarPatterns (BaseName file) = re # morePatterns"
    and valid: "literalsValid re"
    and dir: "ReadDir w (Dir file) = Inr (before @ \<lparr>Name = X, IsDir = False\<rparr> # rest)"
    and m: "regexp_MatchString re X"
    and ok: "isGooglePhotosSidecar w (filepath_Join [(Dir file), X])"
    and others: "\<forall>e\<in>set before. IsDir e \<or> \<not> regexp_MatchString re (Name e) \<or>
           \<not> isGooglePhotosSidecar w (filepath_Join [(Dir file), Name e])"
  shows "findSidecarFile w file = filepath_Join [(Dir file), X]"
proof -
  have "scanEntries w (Dir file) re (before @ \<lparr>Name = X, IsDir = False\<rparr> # rest) =
          Some (filepath_Join [(Dir file), X])"
    using others m ok by (rule scanEntries_first)
  then show ?thesis
    using valid by (simp add: findSidecarFile_def dir pats regexp_Compile_def)
qed

lemma patterns_numbered:
  "sidecarPatterns ''IMG_456(1).jpg'' = [[Lit ''IMG_456.jpg'', OptDotAny, Lit ''(1)'', Lit ''.json'']]"
  by (simp add: sidecarPatterns_def eval_name)

lemma patterns_blank:
  "sidecarPatterns ''blank.jpg'' = [[Lit ''blank.jpg'', OptDotAny, Lit ''.json'']]"
  by (simp add: sidecarPatterns_def eval_name)

text \<open>
  C4, as the code has it. The one pattern built for \<open>IMG_456(1).jpg\<close> is \<open>IMG_456.jpg\<close>,
  then optionally a dot and any text, then \<open>(1).json\<close> (the number token moved behind the
  naming token), and the one built for \<open>blank.jpg\<close> is \<open>blank.jpg\<close>, then optionally a
  dot and any text, then \<open>.json\<close>; the companions
  \<open>IMG_456.jpg.supplemental-metadata(1).json\<close> and \<open>blank.jpg.su.json\<close> fit them. The
  matcher returns the first entry of the listing, in its order, that is a file, fits the
  pattern and passes the content validation: the companion, when no entry before it in
  the listing is such a file.
\<close>

theorem findSidecarFile_first_valid_match:
  "regexp_MatchString [Lit ''IMG_456.jpg'', OptDotAny, Lit ''(1)'', Lit ''.json'']
     ''IMG_456.jpg.supplemental-metadata(1).json'' \<and>
   regexp_MatchString [Lit ''blank.jpg'', OptDotAny, Lit ''.json''] ''blank.jpg.su.json'' \<and>
   (BaseName file = ''IMG_456(1).jpg'' \<and>
      ReadDir w (Dir file) = Inr (before @ \<lparr>Name = X, IsDir = False\<rparr> # rest) \<and>
      regexp_MatchString [Lit ''IMG_456.jpg'', OptDotAny, Lit ''(1)'', Lit ''.json''] X \<and>
      isGooglePhotosSidecar w (filepath_Join [(Dir file), X]) \<and>
      (\<forall>e\<in>set before.
          IsDir e \<or>
          \<not> regexp_MatchString [Lit ''IMG_456.jpg'', OptDotAny, Lit ''(1)'', Lit ''.json''] (Name e) \<or>
          \<not> isGooglePhotosSidecar w (filepath_Join [(Dir file), Name e]))
    \<longrightarrow> findSidecarFile w file = filepath_Join [(Dir file), X]) \<and>
   (BaseName file = ''blank.jpg'' \<and>
      ReadDir w (Dir file) = Inr (before @ \<lparr>Name = X, IsDir = False\<rparr> # rest) \<and>
      regexp_MatchString [Lit ''blank.jpg'', OptDotAny, Lit ''.json''] X \<and>
      isGooglePhotosSidecar w (filepath_Join [(Dir file), X]) \<and>
      (\<forall>e\<in>set before.
          IsDir e \<or>
          \<not> regexp_MatchString [Lit ''blank.jpg'', OptDotAny, Lit ''.json''] (Name e) \<or>
          \<not> isGooglePhotosSidecar w (filepath_Join [(Dir file), Name e]))
    \<longrightarrow> findSidecarFile w file = filepath_Join [(Dir file), X])"
proof -
  have m1: "regexp_MatchString [Lit ''IMG_456.jpg'', OptDotAny, Lit ''(1)'', Lit ''.json'']
     ''IMG_456.jpg.supplemental-metadata(1).json''"
    by (simp add: eval_match)
  have m2: "regexp_MatchString [Lit ''blank.jpg'', OptDotAny, Lit ''.json''] ''blank.jpg.su.json''"
    by (simp add: eval_match)
  have v1: "literalsValid [Lit ''IMG_456.jpg'', OptDotAny, Lit ''(1)'', Lit ''.json'']"
    by (simp add: utf8_ValidString_ascii byte_ascii)
  have v2: "literalsValid [Lit ''blank.jpg'', OptDotAny, Lit ''.json'']"
    by (simp add: utf8_ValidString_ascii byte_ascii)
  have a: "findSidecarFile w file = filepath_Join [(Dir file), X]"
    if h: "BaseName file = ''IMG_456(1).jpg'' \<and>
      ReadDir w (Dir file) = Inr (before @ \<lparr>Name = X, IsDir = False\<rparr> # rest) \<and>
      regexp_MatchString [Lit ''IMG_456.jpg'', OptDotAny, Lit ''(1)'', Lit ''.json''] X \<and>
      isGooglePhotosSidecar w (filepath_Join [(Dir file), X]) \<and>
      (\<forall>e\<in>set before.
          IsDir e \<or>
          \<not> regexp_MatchString [Lit ''IMG_456.jpg'', OptDotAny, Lit ''(1)'', Lit ''.json''] (Name e) \<or>
          \<not> isGooglePhotosSidecar w (filepath_Join [(Dir file), Name e]))"
  proof -
    have p: "sidecarPatterns (BaseName file) =
               [Lit ''IMG_456.jpg'', OptDotAny, Lit ''(1)'', Lit ''.json''] # []"
      using h patterns_numbered by simp
    from h show ?thesis
      by (intro findSidecarFile_first_match[OF p v1, of w before X rest]) blast+
  qed
  have b: "findSidecarFile w file = filepath_Join [(Dir file), X]"
    if h: "BaseName file = ''blank.jpg'' \<and>
      ReadDir w (Dir file) = Inr (before @ \<lparr>Name = X, IsDir = False\<rparr> # rest) \<and>
      regexp_MatchString [Lit ''blank.jpg'', OptDotAny, Lit ''.json''] X \<and>
      isGooglePhotosSidecar w (filepath_Join [(Dir file), X]) \<and>
      (\<forall>e\<in>set before.
          IsDir e \<or>
          \<not> regexp_MatchString [Lit ''blank.jpg'', OptDotAny, Lit ''.json''] (Name e) \<or>
          \<not> isGooglePhotosSidecar w (filepath_Join [(Dir file), Name e]))"
  proof -
    have p: "sidecarPatterns (BaseName file) = [Lit ''blank.jpg'', OptDotAny, Lit ''.json''] # []"
      using h patterns_blank by simp
    from h show ?thesis
      by (intro findSidecarFile_first_match[OF p v2, of w before X rest]) blast+
  qed
  from m1 m2 a b show ?thesis by blast
qed

theorem findSidecarFile_first_valid_match_witness:
  "findSidecarFile (takeoutWorld testFiles)
     \<lparr>Path = ''/takeout/album/IMG_456(1).jpg'', BaseName = ''IMG_456(1).jpg'', Dir = ''/takeout/album''\<rparr> =
     filepath_Join [''/takeout/album'', ''IMG_456.jpg.supplemental-metadata(1).json''] \<and>
   findSidecarFile (takeoutWorld testFiles)
     \<lparr>Path = ''/takeout/album/blank.jpg'', BaseName = ''blank.jpg'', Dir = ''/takeout/album''\<rparr> =
     filepath_Join [''/takeout/album'', ''blank.jpg.su.json'']"
proof (rule conjI)
  let ?f = "\<lparr>Path = ''/takeout/album/IMG_456(1).jpg'', BaseName = ''IMG_456(1).jpg'', Dir = ''/takeout/album''\<rparr>"
  let ?before = "[\<lparr>Name = ''IMG_123.jpg'', IsDir = False\<rparr>, \<lparr>Name = ''IMG_123.jpg.json'', IsDir = False\<rparr>,
                  \<lparr>Name = ''IMG_456(1).jpg'', IsDir = False\<rparr>]"
  let ?rest = "[\<lparr>Name = ''blank.jpg'', IsDir = False\<rparr>, \<lparr>Name = ''blank.jpg.su.json'', IsDir = False\<rparr>]"
  let ?X = "''IMG_456.jpg.supplemental-metadata(1).json''"
  have h: "BaseName ?f = ''IMG_456(1).jpg'' \<and>
      ReadDir (takeoutWorld testFiles) (Dir ?f) = Inr (?before @ \<lparr>Name = ?X, IsDir = False\<rparr> # ?rest) \<and>
      regexp_MatchString [Lit ''IMG_456.jpg'', OptDotAny, Lit ''(1)'', Lit ''.json''] ?X \<and>
      isGooglePhotosSidecar (takeoutWorld testFiles) (filepath_Join [(Dir ?f), ?X]) \<and>
      (\<forall>e\<in>set ?before.
          IsDir e \<or>
          \<not> regexp_MatchString [Lit ''IMG_456.jpg'', OptDotAny, Lit ''(1)'', Lit ''.json''] (Name e) \<or>
          \<not> isGooglePhotosSidecar (takeoutWorld testFiles) (filepath_Join [(Dir ?f), Name e]))"
    by (simp add: takeoutWorld_def testFiles_def isGooglePhotosSidecar_def sidecarContent_def
        eval_path eval_match suffix_to_prefix Let_def)
  from findSidecarFile_first_valid_match[of ?f "takeoutWorld testFiles" ?before ?X ?rest,
      THEN conjunct2, THEN conjunct2, THEN conjunct1, THEN mp, OF h]
  show "findSidecarFile (takeoutWorld testFiles) ?f =
     filepath_Join [''/takeout/album'', ''IMG_456.jpg.supplemental-metadata(1).json'']" by simp
next
  let ?f = "\<lparr>Path = ''/takeout/album/blank.jpg'', BaseName = ''blank.jpg'', Dir = ''/takeout/album''\<rparr>"
  let ?before = "[\<lparr>Name = ''IMG_123.jpg'', IsDir = False\<rparr>, \<lparr>Name = ''IMG_123.jpg.json'', IsDir = False\<rparr>,
                  \<lparr>Name = ''IMG_456(1).jpg'', IsDir = False\<rparr>,
                  \<lparr>Name = ''IMG_456.jpg.supplemental-metadata(1).json'', IsDir = False\<rparr>,
                  \<lparr>Name = ''blank.jpg'', IsDir = False\<rparr>]"
  let ?X = "''blank.jpg.su.json''"
  have h: "BaseName ?f = ''blank.jpg'' \<and>
      ReadDir (takeoutWorld testFiles) (Dir ?f) = Inr (?before @ \<lparr>Name = ?X, IsDir = False\<rparr> # []) \<and>
      regexp_MatchString [Lit ''blank.jpg'', OptDotAny, Lit ''.json''] ?X \<and>
      isGooglePhotosSidecar (takeoutWorld testFiles) (filepath_Join [(Dir ?f), ?X]) \<and>
      (\<forall>e\<in>set ?before.
          IsDir e \<or>
          \<not> regexp_MatchString [Lit ''blank.jpg'', OptDotAny, Lit ''.json''] (Name e) \<or>
          \<not> isGooglePhotosSidecar (takeoutWorld testFiles) (filepath_Join [(Dir ?f), Name e]))"
    by (simp add: takeoutWorld_def testFiles_def isGooglePhotosSidecar_def sidecarContent_def
        eval_path eval_match suffix_to_prefix Let_def)
  from findSidecarFile_first_valid_match[of ?f "takeoutWorld testFiles" ?before ?X "[]",
      THEN conjunct2, THEN conjunct2, THEN conjunct2, THEN mp, OF h]
  show "findSidecarFile (takeoutWorld testFiles) ?f =
     filepath_Join [''/takeout/album'', ''blank.jpg.su.json'']" by simp
qed

text \<open>
  The claim C4 as it is worded fails: in the directory \<open>rivalFiles\<close> both companions are
  present and pass the content validation, and the matcher returns the files
  \<open>IMG_456.jpg(1).json\<close> and \<open>blank.jpg.json\<close>, which come first in the listing and fit
  the same patterns.
\<close>

theorem findSidecarFile_rival_counterexample:
  "ReadDir (takeoutWorld rivalFiles) ''/takeout/album'' =
     Inr (map (\<lambda>n. \<lparr>Name = n, IsDir = False\<rparr>) rivalFiles) \<and>
   ''IMG_456.jpg.supplemental-metadata(1).json'' \<in> set rivalFiles \<and>
   ''blank.jpg.su.json'' \<in> set rivalFiles \<and>
   isGooglePhotosSidecar (takeoutWorld rivalFiles)
     (filepath_Join [''/takeout/album'', ''IMG_456.jpg.supplemental-metadata(1).json'']) \<and>
   isGooglePhotosSidecar (takeoutWorld rivalFiles)
     (filepath_Join [''/takeout/album'', ''blank.jpg.su.json'']) \<and>
   findSidecarFile (takeoutWorld rivalFiles)
     \<lparr>Path = ''/takeout/album/IMG_456(1).jpg'', BaseName = ''IMG_456(1).jpg'', Dir = ''/takeout/album''\<rparr> =
     ''/takeout/album/IMG_456.jpg(1).json'' \<and>
   findSidecarFile (takeoutWorld rivalFiles)
     \<lparr>Path = ''/takeout/album/blank.jpg'', BaseName = ''blank.jpg'', Dir = ''/takeout/album''\<rparr> =
     ''/takeout/album/blank.jpg.json''"
proof (intro conjI)
  show "ReadDir (takeoutWorld rivalFiles) ''/takeout/album'' =
     Inr (map (\<lambda>n. \<lparr>Name = n, IsDir = False\<rparr>) rivalFiles)"
    by (simp add: takeoutWorld_def)
  show "''IMG_456.jpg.supplemental-metadata(1).json'' \<in> set rivalFiles"
    by (simp add: rivalFiles_def)
  show "''blank.jpg.su.json'' \<in> set rivalFiles"
    by (simp add: rivalFiles_def)
  show "isGooglePhotosSidecar (takeoutWorld rivalFiles)
     (filepath_Join [''/takeout/album'', ''IMG_456.jpg.supplemental-metadata(1).json''])"
    by (simp add: isGooglePhotosSidecar_def takeoutWorld_def sidecarContent_def
        eval_path suffix_to_prefix Let_def)
  show "isGooglePhotosSidecar (takeoutWorld rivalFiles)
     (filepath_Join [''/takeout/album'', ''blank.jpg.su.json''])"
    by (simp add: isGooglePhotosSidecar_def takeoutWorld_def sidecarContent_def
        eval_path suffix_to_prefix Let_def)
  show "findSidecarFile (takeoutWorld rivalFiles)
     \<lparr>Path = ''/takeout/album/IMG_456(1).jpg'', BaseName = ''IMG_456(1).jpg'', Dir = ''/takeout/album''\<rparr> =
     ''/takeout/album/IMG_456.jpg(1).json''"
    by (simp add: findSidecarFile_def takeoutWorld_def rivalFiles_def patterns_numbered
        eval_compile eval_match isGooglePhotosSidecar_def sidecarContent_def
        eval_path suffix_to_prefix Let_def)
  show "findSidecarFile (takeoutWorld rivalFiles)
     \<lparr>Path = ''/takeout/album/blank.jpg'', BaseName = ''blank.jpg'', Dir = ''/takeout/album''\<rparr> =
     ''/takeout/album/blank.jpg.json''"
    by (simp add: findSidecarFile_def takeoutWorld_def rivalFiles_def patterns_blank
        eval_compile eval_match isGooglePhotosSidecar_def sidecarContent_def
        eval_path suffix_to_prefix Let_def)
qed

section \<open>Properties of the worker process handle\<close>

lemma updateScan_flagged:
  "\<forall>l\<in>set pre. l \<noteq> ''{ready}'' \<and> \<not> strings_Contains l ''Error:'' \<and> \<not> strings_Contains l ''Warning:'' \<Longrightarrow>
   line \<noteq> ''{ready}'' \<Longrightarrow> strings_Contains line ''Error:'' \<or> strings_Contains line ''Warning:'' \<Longrightarrow>
   updateScan (pre @ line # rest) = (Flagged line, rest)"
  by (induction pre) auto

text \<open>
  On a handle whose next output is the response to the command, the first line with
  \<open>Error:\<close> or \<open>Warning:\<close> in it ends \<open>UpdateAllDates\<close> with a failure that carries the
  line; the lines after it, the \<open>{ready}\<close> line among them, stay unread.
\<close>

lemma UpdateAllDates_first_flagged:
  assumes "stdinFault etp = None"
    and "pending etp = pre @ line # rest"
    and "\<forall>l\<in>set pre. l \<noteq> ''{ready}'' \<and> \<not> strings_Contains l ''Error:'' \<and> \<not> strings_Contains l ''Warning:''"
    and "line \<noteq> ''{ready}''"
    and "strings_Contains line ''Error:'' \<or> strings_Contains line ''Warning:''"
  shows "fst (UpdateAllDates etp filePath dateStr) = Some (ErrorNew (''exiftool error: '' @ line)) \<and>
         pending (snd (UpdateAllDates etp filePath dateStr)) = rest"
  using assms updateScan_flagged[OF assms(3,4,5), of rest]
  by (simp add: UpdateAllDates_def stdin_Write_def Let_def)

text \<open>
  C7 fails on the code. A worker keeps one handle for all its files, and the subprocess
  answers every command with lines that end in a \<open>{ready}\<close> line. Here it answers a first
  write with a warning and a second write with an error. The first call returns at the
  warning and leaves the rest of the first response unread; the second call reads that
  rest, stops at its \<open>{ready}\<close> line and returns no error, although the response to its
  own command holds the line \<open>Error: File not found - /photos/b.jpg\<close>, which is still
  unread after the call.
\<close>

theorem UpdateAllDates_stale_response:
  "fst (UpdateAllDates
          (handle [''Warning: [minor] Bad date - /photos/a.jpg'', ''    1 image files updated'', ''{ready}'',
                   ''Error: File not found - /photos/b.jpg'', ''{ready}''])
          ''/photos/a.jpg'' ''2023:01:01 00:00:00'') =
     Some (ErrorNew ''exiftool error: Warning: [minor] Bad date - /photos/a.jpg'') \<and>
   pending (snd (UpdateAllDates
          (handle [''Warning: [minor] Bad date - /photos/a.jpg'', ''    1 image files updated'', ''{ready}'',
                   ''Error: File not found - /photos/b.jpg'', ''{ready}''])
          ''/photos/a.jpg'' ''2023:01:01 00:00:00'')) =
     [''    1 image files updated'', ''{ready}'', ''Error: File not found - /photos/b.jpg'', ''{ready}''] \<and>
   fst (UpdateAllDates
          (snd (UpdateAllDates
             (handle [''Warning: [minor] Bad date - /photos/a.jpg'', ''    1 image files updated'', ''{ready}'',
                      ''Error: File not found - /photos/b.jpg'', ''{ready}''])
             ''/photos/a.jpg'' ''2023:01:01 00:00:00''))
          ''/photos/b.jpg'' ''2023:01:01 00:00:00'') = None \<and>
   pending (snd (UpdateAllDates
          (snd (UpdateAllDates
             (handle [''Warning: [minor] Bad date - /photos/a.jpg'', ''    1 image files updated'', ''{ready}'',
                      ''Error: File not found - /photos/b.jpg'', ''{ready}''])
             ''/photos/a.jpg'' ''2023:01:01 00:00:00''))
          ''/photos/b.jpg'' ''2023:01:01 00:00:00'')) =
     [''Error: File not found - /photos/b.jpg'', ''{ready}'']"
  by (simp add: UpdateAllDates_def stdin_Write_def handle_def Let_def)

section \<open>Properties of reading the metadata\<close>

text \<open>
  On a handle whose next output is the response to the command, a response that is the
  \<open>{ready}\<close> line alone gives the empty map and no error.
\<close>

lemma trimLeft_Nil: "trimLeft [] = []"
  by (simp add: trimLeft.simps spaceEncodings_def)

lemma trimRight_Nil: "trimRight [] = []"
  by (simp add: trimRight.simps spaceEncodings_def)

lemma GetMetadata_empty_response:
  assumes "stdinFault etp = None" and "pending etp = ''{ready}'' # rest"
  shows "fst (GetMetadata etp filePath) = Inr Map.empty \<and>
         pending (snd (GetMetadata etp filePath)) = rest"
  using assms
  by (simp add: GetMetadata_def stdin_Write_def Let_def strings_TrimSpace_def trimLeft_Nil trimRight_Nil)

text \<open>
  C8 fails on the code, by the early return of \<open>UpdateAllDates\<close>. The subprocess answers
  a write with a warning and the read that follows with the \<open>{ready}\<close> line alone. The
  write returns at the warning; the read then takes the rest of the write's response
  for its own, and returns a failure, not the empty map.
\<close>

theorem GetMetadata_stale_response:
  "fst (UpdateAllDates
          (handle [''Warning: [minor] Bad date - /photos/a.jpg'', ''    1 image files updated'', ''{ready}'',
                   ''{ready}''])
          ''/photos/a.jpg'' ''2023:01:01 00:00:00'') =
     Some (ErrorNew ''exiftool error: Warning: [minor] Bad date - /photos/a.jpg'') \<and>
   pending (snd (UpdateAllDates
          (handle [''Warning: [minor] Bad date - /photos/a.jpg'', ''    1 image files updated'', ''{ready}'',
                   ''{ready}''])
          ''/photos/a.jpg'' ''2023:01:01 00:00:00'')) =
     [''    1 image files updated'', ''{ready}'', ''{ready}''] \<and>
   fst (GetMetadata
          (snd (UpdateAllDates
             (handle [''Warning: [minor] Bad date - /photos/a.jpg'', ''    1 image files updated'', ''{ready}'',
                      ''{ready}''])
             ''/photos/a.jpg'' ''2023:01:01 00:00:00''))
          ''/photos/b.jpg'') =
     Inl (Errorf ''failed to parse exiftool JSON: '' SyntaxError)"
proof -
  let ?h = "handle [''Warning: [minor] Bad date - /photos/a.jpg'', ''    1 image files updated'', ''{ready}'',
                   ''{ready}'']"
  let ?u = "UpdateAllDates ?h ''/photos/a.jpg'' ''2023:01:01 00:00:00''"
  have a: "fst ?u = Some (ErrorNew ''exiftool error: Warning: [minor] Bad date - /photos/a.jpg'')"
    by (simp add: UpdateAllDates_def stdin_Write_def handle_def Let_def)
  have b: "pending (snd ?u) = [''    1 image files updated'', ''{ready}'', ''{ready}'']"
    by (simp add: UpdateAllDates_def stdin_Write_def handle_def Let_def)
  have f: "stdinFault (snd ?u) = None"
    by (simp add: UpdateAllDates_def stdin_Write_def handle_def Let_def)
  have t: "strings_TrimSpace (''    1 image files updated'' @ [CHR 0x0A]) = ''1 image files updated''"
    by (simp add: strings_TrimSpace_def trimLeft.simps trimRight.simps spaceEncodings_def
        suffix_to_prefix)
  have j: "unmarshalExifData ''1 image files updated'' = Inl SyntaxError"
    by (simp add: unmarshalExifData_def json_decode_def isNumberChar_def validNumber_def
        digitsThen_def isDigit_def validFraction_def validExponent_def)
  have c: "fst (GetMetadata (snd ?u) ''/photos/b.jpg'') =
             Inl (Errorf ''failed to parse exiftool JSON: '' SyntaxError)"
    using t j by (simp add: GetMetadata_def stdin_Write_def f b Let_def)
  from a b c show ?thesis by blast
qed

section \<open>Properties of the timestamps\<close>

lemma byte_control: "byte c < 0x20 \<longleftrightarrow> \<not> digit5 c \<and> \<not> digit6 c \<and> \<not> digit7 c"
  by (cases c) (simp add: byte_def)

lemmas eval_json = json_decode_def byte_control byte_ascii isSimpleEscape_def

lemma parseUintLoop_digits: "parseUintLoop s0 ds n = Inr m \<Longrightarrow> list_all isDigit ds"
  by (induction ds arbitrary: n) (auto split: if_splits)

lemma ParseInt_decimal: "strconv_ParseInt s = Inr n \<Longrightarrow> decimalIntegerString s"
proof (cases s)
  case Nil
  assume "strconv_ParseInt s = Inr n"
  with Nil show ?thesis by (simp add: strconv_ParseInt_def)
next
  case (Cons c r)
  assume a: "strconv_ParseInt s = Inr n"
  let ?s1 = "if c = CHR ''+'' \<or> c = CHR ''-'' then r else c # r"
  from a Cons have ne: "?s1 \<noteq> []"
    by (auto simp: strconv_ParseInt_def Let_def split: if_splits)
  from a Cons obtain un where "parseUintLoop (c # r) ?s1 0 = Inr un"
    by (auto simp: strconv_ParseInt_def Let_def split: if_splits sum.splits)
  then have "list_all isDigit ?s1" by (rule parseUintLoop_digits)
  with ne show ?thesis unfolding Cons decimalIntegerString_def Let_def by simp
qed

lemma saveError_Some: "saveError saved err \<noteq> None"
  by (simp add: saveError_def split: option.splits)

lemma decodeString_keeps: "saved \<noteq> None \<Longrightarrow> snd (decodeString field v (cur, saved)) \<noteq> None"
  by (cases v) (simp_all add: saveError_Some)

lemma decodePhotoTakenTime_keeps:
  "saved \<noteq> None \<Longrightarrow> snd (decodePhotoTakenTime ms (t, saved)) \<noteq> None"
proof (induction ms arbitrary: t saved)
  case Nil
  then show ?case by simp
next
  case (Cons kv ms)
  obtain key v where kv: "kv = (key, v)" by (cases kv)
  show ?case
  proof (cases "foldMatch ''timestamp'' key")
    case False
    with kv Cons show ?thesis by simp
  next
    case True
    obtain s sv where ds: "decodeString ''photoTakenTime.timestamp'' v (Timestamp t, saved) = (s, sv)"
      by (cases "decodeString ''photoTakenTime.timestamp'' v (Timestamp t, saved)")
    with decodeString_keeps[OF Cons.prems, of "''photoTakenTime.timestamp''" v "Timestamp t"]
    have "sv \<noteq> None" by simp
    from Cons.IH[OF this] True kv ds show ?thesis by simp
  qed
qed

lemma decodeSidecarData_keeps:
  "saved \<noteq> None \<Longrightarrow> snd (decodeSidecarData members (d, saved)) \<noteq> None"
proof (induction members arbitrary: d saved)
  case Nil
  then show ?case by simp
next
  case (Cons kv members)
  obtain key v where kv: "kv = (key, v)" by (cases kv)
  show ?case
  proof (cases "foldMatch ''title'' key")
    case True
    obtain s sv where ds: "decodeString ''title'' v (SidecarData.Title d, saved) = (s, sv)"
      by (cases "decodeString ''title'' v (SidecarData.Title d, saved)")
    with decodeString_keeps[OF Cons.prems, of "''title''" v "SidecarData.Title d"]
    have "sv \<noteq> None" by simp
    from Cons.IH[OF this] True kv ds show ?thesis by simp
  next
    case nt: False
    show ?thesis
    proof (cases "foldMatch ''photoTakenTime'' key")
      case False
      with nt kv Cons show ?thesis by simp
    next
      case True
      show ?thesis
      proof (cases v)
        case (JObject ms)
        obtain t sv where dp: "decodePhotoTakenTime ms (PhotoTakenTime d, saved) = (t, sv)"
          by (cases "decodePhotoTakenTime ms (PhotoTakenTime d, saved)")
        with decodePhotoTakenTime_keeps[OF Cons.prems, of ms "PhotoTakenTime d"]
        have "sv \<noteq> None" by simp
        from Cons.IH[OF this] True nt kv dp JObject show ?thesis by simp
      qed (use True nt kv Cons.IH[OF Cons.prems] Cons.IH[OF saveError_Some] in simp_all)
    qed
  qed
qed

lemma decodePhotoTakenTime_absent:
  "\<forall>kv\<in>set ms. \<not> foldMatch ''timestamp'' (fst kv) \<Longrightarrow>
   decodePhotoTakenTime ms (t, saved) = (t, saved)"
  by (induction ms arbitrary: t saved) auto

lemma decodeSidecarData_absent:
  "\<forall>kv\<in>set members. foldMatch ''photoTakenTime'' (fst kv) \<longrightarrow>
      (\<forall>ms. snd kv = JObject ms \<longrightarrow> (\<forall>kv'\<in>set ms. \<not> foldMatch ''timestamp'' (fst kv'))) \<Longrightarrow>
   decodeSidecarData members (d, saved) = (d', saved') \<Longrightarrow>
   saved' \<noteq> None \<or> PhotoTakenTime d' = PhotoTakenTime d"
proof (induction members arbitrary: d saved)
  case Nil
  then show ?case by simp
next
  case (Cons kv members)
  obtain key v where kv: "kv = (key, v)" by (cases kv)
  have rest: "\<forall>kv\<in>set members. foldMatch ''photoTakenTime'' (fst kv) \<longrightarrow>
      (\<forall>ms. snd kv = JObject ms \<longrightarrow> (\<forall>kv'\<in>set ms. \<not> foldMatch ''timestamp'' (fst kv')))"
    using Cons.prems(1) by simp
  show ?case
  proof (cases "foldMatch ''title'' key")
    case True
    obtain s sv where ds: "decodeString ''title'' v (SidecarData.Title d, saved) = (s, sv)"
      by (cases "decodeString ''title'' v (SidecarData.Title d, saved)")
    with True kv Cons.prems(2)
    have "decodeSidecarData members (d\<lparr>SidecarData.Title := s\<rparr>, sv) = (d', saved')" by simp
    from Cons.IH[OF rest this] show ?thesis by simp
  next
    case nt: False
    show ?thesis
    proof (cases "foldMatch ''photoTakenTime'' key")
      case False
      with nt kv Cons.prems(2) have "decodeSidecarData members (d, saved) = (d', saved')" by simp
      from Cons.IH[OF rest this] show ?thesis .
    next
      case True
      show ?thesis
      proof (cases "\<exists>ms. v = JObject ms")
        case True
        then obtain ms where v: "v = JObject ms" by blast
        with \<open>foldMatch ''photoTakenTime'' key\<close> Cons.prems(1) kv
        have "\<forall>kv'\<in>set ms. \<not> foldMatch ''timestamp'' (fst kv')" by simp
        from decodePhotoTakenTime_absent[OF this]
        have "decodePhotoTakenTime ms (PhotoTakenTime d, saved) = (PhotoTakenTime d, saved)" .
        with v nt \<open>foldMatch ''photoTakenTime'' key\<close> kv Cons.prems(2)
        have "decodeSidecarData members (d\<lparr>PhotoTakenTime := PhotoTakenTime d\<rparr>, saved) = (d', saved')"
          by simp
        from Cons.IH[OF rest this] show ?thesis by simp
      next
        case no: False
        show ?thesis
        proof (cases "v = JNull")
          case True
          with nt \<open>foldMatch ''photoTakenTime'' key\<close> kv Cons.prems(2)
          have "decodeSidecarData members (d, saved) = (d', saved')" by simp
          from Cons.IH[OF rest this] show ?thesis .
        next
          case False
          with no nt \<open>foldMatch ''photoTakenTime'' key\<close> kv Cons.prems(2)
          have "decodeSidecarData members (d, saveError saved (UnmarshalTypeError ''photoTakenTime'')) = (d', saved')"
            by (cases v) simp_all
          with decodeSidecarData_keeps[OF saveError_Some, of members d saved "UnmarshalTypeError ''photoTakenTime''"]
          show ?thesis by simp
        qed
      qed
    qed
  qed
qed

lemma ParseInt_empty: "strconv_ParseInt [] = Inl (NumError [] ''invalid syntax'')"
  by (simp add: strconv_ParseInt_def)

lemma content_decodes:
  "unmarshalSidecarData ''{\"title\":\"t.jpg\",\"photoTakenTime\":{\"timestamp\":\"1672531200\"}}'' =
     Inr \<lparr>SidecarData.Title = ''t.jpg'', PhotoTakenTime = \<lparr>Timestamp = ''1672531200''\<rparr>\<rparr>"
  by (simp add: unmarshalSidecarData_def eval_json toLower_def byte_def)

lemma ParseInt_value: "strconv_ParseInt ''1672531200'' = Inr 1672531200"
  by (simp add: strconv_ParseInt_def isDigit_def byte_def)

lemma civil_2023: "civilFromDays 19358 = (2023, 1, 1)"
  unfolding civilFromDays_def Let_def by simp

lemma format_2023:
  "time_Format \<lparr>unixSec = 1672531200, nsec = 0, zoneOffset = 0\<rparr> = ''2023:01:01 00:00:00''"
proof -
  have c: "calendarSeconds \<lparr>unixSec = 1672531200, nsec = 0, zoneOffset = 0\<rparr> = 1672531200"
    by (simp add: calendarSeconds_def)
  have d: "(1672531200::int) div 86400 = 19358" "(1672531200::int) mod 86400 = 0" by simp_all
  show ?thesis
    unfolding time_Format_def Year_def Month_def Day_def c d civil_2023 Let_def
    by (simp add: padded_def decimal.simps)
qed

text \<open>
  C5. The companion content of the claim parses to the instant 1672531200 seconds after
  the Unix epoch, with no nanoseconds, which is 2023-01-01 00:00:00 in UTC. When
  \<open>parseSidecarDate\<close> succeeds, the file was read and decoded, the timestamp field of the
  decoded companion is a decimal integer string, and the instant is the value of that
  string: so a timestamp that is empty or not a decimal integer string is a failure,
  and no result is a default instant. A timestamp that is absent from the content
  (no member named \<open>photoTakenTime\<close> is an object with a member named \<open>timestamp\<close>,
  the names read up to case as the decoder reads them) is a failure as well.
\<close>

theorem parseSidecarDate_timestamp:
  "(ReadFile w p = Inr ''{\"title\":\"t.jpg\",\"photoTakenTime\":{\"timestamp\":\"1672531200\"}}'' \<longrightarrow>
      parseSidecarDate w p = Inr (time_Unix w 1672531200) \<and>
      unixSec (time_Unix w 1672531200) = 1672531200 \<and> nsec (time_Unix w 1672531200) = 0) \<and>
   time_Format \<lparr>unixSec = 1672531200, nsec = 0, zoneOffset = 0\<rparr> = ''2023:01:01 00:00:00'' \<and>
   (parseSidecarDate w p = Inr t \<longrightarrow>
      (\<exists>data sidecar. ReadFile w p = Inr data \<and> unmarshalSidecarData data = Inr sidecar \<and>
         decimalIntegerString (Timestamp (PhotoTakenTime sidecar)) \<and>
         strconv_ParseInt (Timestamp (PhotoTakenTime sidecar)) = Inr (unixSec t) \<and>
         t = time_Unix w (unixSec t))) \<and>
   (ReadFile w p = Inr data \<and> json_decode data = Some (JObject members) \<and>
      (\<forall>kv\<in>set members. foldMatch ''photoTakenTime'' (fst kv) \<longrightarrow>
          (\<forall>ms. snd kv = JObject ms \<longrightarrow> (\<forall>kv'\<in>set ms. \<not> foldMatch ''timestamp'' (fst kv')))) \<longrightarrow>
      (\<exists>err. parseSidecarDate w p = Inl err))"
proof -
  have a: "parseSidecarDate w p = Inr (time_Unix w 1672531200) \<and>
      unixSec (time_Unix w 1672531200) = 1672531200 \<and> nsec (time_Unix w 1672531200) = 0"
    if "ReadFile w p = Inr ''{\"title\":\"t.jpg\",\"photoTakenTime\":{\"timestamp\":\"1672531200\"}}''"
    using that by (simp add: parseSidecarDate_def content_decodes ParseInt_value time_Unix_def)
  have b: "\<exists>data sidecar. ReadFile w p = Inr data \<and> unmarshalSidecarData data = Inr sidecar \<and>
         decimalIntegerString (Timestamp (PhotoTakenTime sidecar)) \<and>
         strconv_ParseInt (Timestamp (PhotoTakenTime sidecar)) = Inr (unixSec t) \<and>
         t = time_Unix w (unixSec t)"
    if h: "parseSidecarDate w p = Inr t"
  proof -
    from h obtain data where data: "ReadFile w p = Inr data"
      by (cases "ReadFile w p") (simp_all add: parseSidecarDate_def)
    from h data obtain sidecar where sidecar: "unmarshalSidecarData data = Inr sidecar"
      by (cases "unmarshalSidecarData data") (simp_all add: parseSidecarDate_def)
    from h data sidecar obtain n where n: "strconv_ParseInt (Timestamp (PhotoTakenTime sidecar)) = Inr n"
      by (cases "strconv_ParseInt (Timestamp (PhotoTakenTime sidecar))") (simp_all add: parseSidecarDate_def)
    from h data sidecar n have t: "t = time_Unix w n" by (simp add: parseSidecarDate_def)
    then have u: "unixSec t = n" by (simp add: time_Unix_def)
    from ParseInt_decimal[OF n] data sidecar n t u show ?thesis by auto
  qed
  have c: "\<exists>err. parseSidecarDate w p = Inl err"
    if h: "ReadFile w p = Inr data \<and> json_decode data = Some (JObject members) \<and>
      (\<forall>kv\<in>set members. foldMatch ''photoTakenTime'' (fst kv) \<longrightarrow>
          (\<forall>ms. snd kv = JObject ms \<longrightarrow> (\<forall>kv'\<in>set ms. \<not> foldMatch ''timestamp'' (fst kv'))))"
  proof -
    let ?zero = "\<lparr>SidecarData.Title = [], PhotoTakenTime = \<lparr>Timestamp = []\<rparr>\<rparr>"
    obtain d' saved' where dec: "decodeSidecarData members (?zero, None) = (d', saved')"
      by (cases "decodeSidecarData members (?zero, None)")
    from h have absent: "\<forall>kv\<in>set members. foldMatch ''photoTakenTime'' (fst kv) \<longrightarrow>
          (\<forall>ms. snd kv = JObject ms \<longrightarrow> (\<forall>kv'\<in>set ms. \<not> foldMatch ''timestamp'' (fst kv')))"
      by blast
    from decodeSidecarData_absent[OF absent dec]
    consider "saved' \<noteq> None" | "saved' = None" "PhotoTakenTime d' = \<lparr>Timestamp = []\<rparr>" by auto
    then show ?thesis
    proof cases
      case 1
      then obtain err where "saved' = Some err" by auto
      with h dec show ?thesis
        by (simp add: parseSidecarDate_def unmarshalSidecarData_def Let_def)
    next
      case 2
      with h dec show ?thesis
        by (simp add: parseSidecarDate_def unmarshalSidecarData_def Let_def ParseInt_empty)
    qed
  qed
  from a b c format_2023 show ?thesis by blast
qed

theorem parseSidecarDate_timestamp_witness:
  "parseSidecarDate (sidecarWorld ''{\"title\":\"t.jpg\",\"photoTakenTime\":{\"timestamp\":\"1672531200\"}}'')
      ''/takeout/album/t.jpg.json'' =
     Inr \<lparr>unixSec = 1672531200, nsec = 0, zoneOffset = 0\<rparr> \<and>
   decimalIntegerString ''1672531200'' \<and>
   (\<exists>err. parseSidecarDate (sidecarWorld ''{\"title\":\"t.jpg\",\"photoTakenTime\":{}}'')
             ''/takeout/album/t.jpg.json'' = Inl err)"
proof (intro conjI)
  let ?c = "''{\"title\":\"t.jpg\",\"photoTakenTime\":{\"timestamp\":\"1672531200\"}}''"
  let ?w = "sidecarWorld ?c"
  let ?p = "''/takeout/album/t.jpg.json''"
  let ?t = "\<lparr>unixSec = 1672531200, nsec = 0, zoneOffset = 0\<rparr>"
  have r: "ReadFile ?w ?p = Inr ?c" by (simp add: sidecarWorld_def)
  have u: "time_Unix ?w 1672531200 = ?t"
    by (simp add: time_Unix_def sidecarWorld_def takeoutWorld_def)
  from parseSidecarDate_timestamp[of ?w ?p, THEN conjunct1, THEN mp, OF r]
  show p: "parseSidecarDate ?w ?p = Inr ?t" by (simp add: u)
  from parseSidecarDate_timestamp[of ?w ?p ?t, THEN conjunct2, THEN conjunct2, THEN conjunct1, THEN mp, OF p]
  obtain data sidecar where d: "ReadFile ?w ?p = Inr data" "unmarshalSidecarData data = Inr sidecar"
    "decimalIntegerString (Timestamp (PhotoTakenTime sidecar))" by blast
  from d(1) r have dc: "data = ?c" by simp
  from d(2) have "Inr sidecar = unmarshalSidecarData ?c" unfolding dc by simp
  then have "sidecar = \<lparr>SidecarData.Title = ''t.jpg'', PhotoTakenTime = \<lparr>Timestamp = ''1672531200''\<rparr>\<rparr>"
    unfolding content_decodes by simp
  with d(3) show "decimalIntegerString ''1672531200''" by simp
next
  let ?c = "''{\"title\":\"t.jpg\",\"photoTakenTime\":{}}''"
  let ?w = "sidecarWorld ?c"
  let ?p = "''/takeout/album/t.jpg.json''"
  let ?members = "[(''title'', JString ''t.jpg''), (''photoTakenTime'', JObject [])]"
  have h: "ReadFile ?w ?p = Inr ?c \<and> json_decode ?c = Some (JObject ?members) \<and>
      (\<forall>kv\<in>set ?members. foldMatch ''photoTakenTime'' (fst kv) \<longrightarrow>
          (\<forall>ms. snd kv = JObject ms \<longrightarrow> (\<forall>kv'\<in>set ms. \<not> foldMatch ''timestamp'' (fst kv'))))"
    by (simp add: sidecarWorld_def eval_json toLower_def byte_def)
  from parseSidecarDate_timestamp[of ?w ?p _ ?c ?members, THEN conjunct2, THEN conjunct2, THEN conjunct2, THEN mp, OF h]
  show "\<exists>err. parseSidecarDate ?w ?p = Inl err" .
qed

section \<open>Properties of processing one media file\<close>

lemma resolveDate_action:
  "resolveDate w config exifTool file = (Inr (date, action), etp) \<Longrightarrow>
     action = [] \<or> action = ''Updated EXIF from sidecar''"
  by (auto simp: resolveDate_def Let_def split: prod.splits sum.splits option.splits if_splits)

lemma albumStep_action:
  "albumStep w config file destPath action = action \<or>
   (\<exists>added. albumStep w config file destPath action = action @ '' | '' @ added)"
  by (auto simp: albumStep_def Let_def split: option.splits)

lemma moveStep_action:
  "moveStep w config file date action = Inr action' \<Longrightarrow>
     action' = action \<or> (\<exists>added. action' = action @ '' | '' @ added)"
proof -
  assume a: "moveStep w config file date action = Inr action'"
  show ?thesis
  proof (cases "Move config \<and> \<not> IsZero date")
    case False
    with a show ?thesis by (auto simp: moveStep_def)
  next
    case True
    let ?dest = "generateDestinationPath (OutputDir config) (BaseName file) date"
    from a True obtain verb where v: "action' = albumStep w config file ?dest (action @ '' | '' @ verb)"
      by (auto simp: moveStep_def Let_def split: if_splits option.splits)
    from albumStep_action[of w config "file" ?dest "action @ '' | '' @ verb"] v
    show ?thesis by auto
  qed
qed

text \<open>
  C9. For every file system, configuration, handle and media file, the result of
  \<open>processMediaFile\<close> has the success flag set exactly when its error is nil, and names
  the file. A success has a non-empty action: \<open>No action needed\<close> when no step wrote
  one, otherwise a text that starts with \<open>Updated EXIF from sidecar\<close> or with the
  separator of a move step.
\<close>

theorem processMediaFile_result_invariant:
  "Success (fst (processMediaFile w config exifTool file)) =
     (Error (fst (processMediaFile w config exifTool file)) = None) \<and>
   File (fst (processMediaFile w config exifTool file)) = file \<and>
   (Success (fst (processMediaFile w config exifTool file)) \<longrightarrow>
      Action (fst (processMediaFile w config exifTool file)) \<noteq> [] \<and>
      (Action (fst (processMediaFile w config exifTool file)) = ''No action needed'' \<or>
       prefix ''Updated EXIF from sidecar'' (Action (fst (processMediaFile w config exifTool file))) \<or>
       prefix '' | '' (Action (fst (processMediaFile w config exifTool file)))))"
proof (cases "resolveDate w config exifTool file")
  case (Pair res etp1)
  show ?thesis
  proof (cases res)
    case (Inl err)
    with Pair show ?thesis by (simp add: processMediaFile_def)
  next
    case (Inr da)
    obtain date action where da: "da = (date, action)" by (cases da)
    from Pair Inr da have rd: "resolveDate w config exifTool file = (Inr (date, action), etp1)" by simp
    show ?thesis
    proof (cases "moveStep w config file date action")
      case (Inl err)
      with rd show ?thesis by (simp add: processMediaFile_def)
    next
      case mv: (Inr action')
      have r: "fst (processMediaFile w config exifTool file) =
                 \<lparr>File = file, Success = True,
                  Action = (if action' = [] then ''No action needed'' else action'), Error = None\<rparr>"
        using rd mv by (simp add: processMediaFile_def)
      from resolveDate_action[OF rd] moveStep_action[OF mv]
      have "action' = [] \<or> prefix ''Updated EXIF from sidecar'' action' \<or> prefix '' | '' action'"
        by (auto simp: prefix_def)
      then show ?thesis unfolding r by auto
    qed
  qed
qed

lemma dated_response:
  "unmarshalExifData
     (''[{'' @ [CHR 0x0A] @ ''  \"SourceFile\": \"/takeout/album/a.jpg\",'' @ [CHR 0x0A] @
      ''  \"DateTimeOriginal\": \"2023:01:01 00:00:00\"'' @ [CHR 0x0A] @ ''}]'') =
   Inr [[''SourceFile'' \<mapsto> JString ''/takeout/album/a.jpg'',
         ''DateTimeOriginal'' \<mapsto> JString ''2023:01:01 00:00:00'']]"
  by (simp add: unmarshalExifData_def eval_json)

lemma dated_trim:
  "strings_TrimSpace
     (''[{'' @ [CHR 0x0A] @ ''  \"SourceFile\": \"/takeout/album/a.jpg\",'' @ [CHR 0x0A] @
      ''  \"DateTimeOriginal\": \"2023:01:01 00:00:00\"'' @ [CHR 0x0A] @ ''}]'' @ [CHR 0x0A]) =
   ''[{'' @ [CHR 0x0A] @ ''  \"SourceFile\": \"/takeout/album/a.jpg\",'' @ [CHR 0x0A] @
      ''  \"DateTimeOriginal\": \"2023:01:01 00:00:00\"'' @ [CHR 0x0A] @ ''}]''"
  by (simp add: strings_TrimSpace_def trimLeft.simps trimRight.simps spaceEncodings_def suffix_to_prefix)

lemma dated_result:
  "fst (processMediaFile datedWorld keepConfig
          (handle [''[{'', ''  \"SourceFile\": \"/takeout/album/a.jpg\",'',
                   ''  \"DateTimeOriginal\": \"2023:01:01 00:00:00\"'', ''}]'', ''{ready}''])
          \<lparr>Path = ''/takeout/album/a.jpg'', BaseName = ''a.jpg'', Dir = ''/takeout/album''\<rparr>) =
   \<lparr>File = \<lparr>Path = ''/takeout/album/a.jpg'', BaseName = ''a.jpg'', Dir = ''/takeout/album''\<rparr>,
    Success = True, Action = ''No action needed'', Error = None\<rparr>"
proof -
  let ?h = "handle [''[{'', ''  \"SourceFile\": \"/takeout/album/a.jpg\",'',
                   ''  \"DateTimeOriginal\": \"2023:01:01 00:00:00\"'', ''}]'', ''{ready}'']"
  have g: "fst (GetMetadata ?h ''/takeout/album/a.jpg'') =
             Inr (stringTags [''SourceFile'' \<mapsto> JString ''/takeout/album/a.jpg'',
                              ''DateTimeOriginal'' \<mapsto> JString ''2023:01:01 00:00:00''])"
    using dated_trim dated_response
    by (simp add: GetMetadata_def stdin_Write_def handle_def Let_def)
  obtain e where ge: "GetMetadata ?h ''/takeout/album/a.jpg'' =
             (Inr (stringTags [''SourceFile'' \<mapsto> JString ''/takeout/album/a.jpg'',
                              ''DateTimeOriginal'' \<mapsto> JString ''2023:01:01 00:00:00'']), e)"
    using g by (cases "GetMetadata ?h ''/takeout/album/a.jpg''") simp
  show ?thesis
    by (simp add: processMediaFile_def resolveDate_def ge exifDateTags_def stringTags_def
        parseExifDate_def datedWorld_def takeoutWorld_def moveStep_def keepConfig_def)
qed

theorem processMediaFile_result_invariant_witness:
  "Success (fst (processMediaFile datedWorld keepConfig
          (handle [''[{'', ''  \"SourceFile\": \"/takeout/album/a.jpg\",'',
                   ''  \"DateTimeOriginal\": \"2023:01:01 00:00:00\"'', ''}]'', ''{ready}''])
          \<lparr>Path = ''/takeout/album/a.jpg'', BaseName = ''a.jpg'', Dir = ''/takeout/album''\<rparr>)) \<and>
   Error (fst (processMediaFile datedWorld keepConfig
          (handle [''[{'', ''  \"SourceFile\": \"/takeout/album/a.jpg\",'',
                   ''  \"DateTimeOriginal\": \"2023:01:01 00:00:00\"'', ''}]'', ''{ready}''])
          \<lparr>Path = ''/takeout/album/a.jpg'', BaseName = ''a.jpg'', Dir = ''/takeout/album''\<rparr>)) = None \<and>
   Action (fst (processMediaFile datedWorld keepConfig
          (handle [''[{'', ''  \"SourceFile\": \"/takeout/album/a.jpg\",'',
                   ''  \"DateTimeOriginal\": \"2023:01:01 00:00:00\"'', ''}]'', ''{ready}''])
          \<lparr>Path = ''/takeout/album/a.jpg'', BaseName = ''a.jpg'', Dir = ''/takeout/album''\<rparr>)) \<noteq> []"
proof -
  let ?r = "fst (processMediaFile datedWorld keepConfig
          (handle [''[{'', ''  \"SourceFile\": \"/takeout/album/a.jpg\",'',
                   ''  \"DateTimeOriginal\": \"2023:01:01 00:00:00\"'', ''}]'', ''{ready}''])
          \<lparr>Path = ''/takeout/album/a.jpg'', BaseName = ''a.jpg'', Dir = ''/takeout/album''\<rparr>)"
  have s: "Success ?r" by (simp add: dated_result)
  from processMediaFile_result_invariant[of datedWorld keepConfig
          "handle [''[{'', ''  \"SourceFile\": \"/takeout/album/a.jpg\",'',
                   ''  \"DateTimeOriginal\": \"2023:01:01 00:00:00\"'', ''}]'', ''{ready}'']"
          "\<lparr>Path = ''/takeout/album/a.jpg'', BaseName = ''a.jpg'', Dir = ''/takeout/album''\<rparr>"]
  have i: "Success ?r = (Error ?r = None)" and a: "Success ?r \<longrightarrow> Action ?r \<noteq> []" by blast+
  from s i a show ?thesis by blast
qed

end
